theory Spec2Isabelle
  imports Complex_Main
begin

section \<open>Data model (types.ts)\<close>

text \<open>
  JavaScript numbers are modelled as \<^typ>\<open>real\<close>: rounding, NaN and the infinities are
  not part of the model. A data row is a JavaScript object read by string key; an absent
  key is \<open>None\<close>. The named columns of \<open>NdDataRow\<close> are typed \<open>number\<close>, so a present
  cell holds a number.
\<close>

type_synonym NdDataRow = "string \<rightharpoonup> real"

datatype Category = Process | TradeCat | LossCat | EndOfLife

datatype LinkType = Domestic | Trade | Loss

text \<open>
  \<open>SankeyLink.source\<close> and \<open>target\<close> are typed \<open>number | string | SankeyNode\<close>: the
  builder writes positions in the node array, and the d3 layout replaces each of them by
  the node object. The type of a link end is therefore a parameter.
\<close>

record DataNode =
  name :: string
  nid :: string
  category :: Category

record 'e DataLink =
  source :: 'e
  target :: 'e
  linkValue :: real
  realValue :: real
  linkType :: LinkType

record ('n, 'l) GraphData =
  nodes :: "'n list"
  links :: "'l list"

text \<open>The fields d3-sankey and the diagram add to a node.\<close>

record SankeyNode = DataNode +
  index :: nat
  x0 :: real
  x1 :: real
  y0 :: real
  y1 :: real
  isRotated :: "bool option"

datatype Side = Top | Bottom | Left | Right

text \<open>
  An attachment record \<open>{x, y, side}\<close>. The routing first writes the side alone, so
  \<open>x\<close> and \<open>y\<close> can be undefined for a moment.
\<close>

record Coords =
  cx :: "real option"
  cy :: "real option"
  side :: Side

text \<open>
  A link of the laid-out graph: its ends are node objects (held here by value: the
  routing reads them and never writes them), \<open>width\<close> is optional.
\<close>

record SankeyLink = "SankeyNode DataLink" +
  width :: "real option"
  sourceCoords :: "Coords option"
  targetCoords :: "Coords option"

type_synonym BuiltGraph = "(DataNode, nat DataLink) GraphData"

type_synonym Graph = "(SankeyNode, SankeyLink) GraphData"

record SavedNodeLayout =
  saved_x0 :: real
  saved_x1 :: real
  saved_y0 :: real
  saved_y1 :: real
  saved_isRotated :: bool

record SavedLinkLayout =
  sourceOffset :: "real option"
  targetOffset :: "real option"
  sourceSide :: "Side option"
  targetSide :: "Side option"

text \<open>
  The link table is a JavaScript object read by link key. A link key holds a hyphen, the
  name of no member that objects inherit, so a read finds an own entry or nothing.
\<close>

type_synonym LinkOffsets = "string \<rightharpoonup> SavedLinkLayout"

text \<open>
  The node table \<open>Record<string, SavedNodeLayout>\<close> is a plain JavaScript object read and
  written by node id, and a node id is any string: the own entries, and the prototype when
  an assignment to the key \<open>__proto__\<close> has replaced it by an entry (\<open>None\<close>: the
  prototype is \<open>Object.prototype\<close>).
\<close>

record NodeTable =
  ownEntries :: "string \<rightharpoonup> SavedNodeLayout"
  protoEntry :: "SavedNodeLayout option"

record SavedLayoutMap =
  savedNodes :: NodeTable
  savedLinks :: LinkOffsets

datatype Align = Justify | AlignLeft | AlignRight | Center

text \<open>The settings the layout reads (the font and colour fields only reach the renderer).\<close>

record VisualizationSettings =
  nodeWidth :: real
  nodePadding :: real
  flowScale :: real
  align :: Align

section \<open>Graph builder (processData.ts)\<close>

text \<open>\<open>v || 0\<close> on a cell: an absent cell and a cell holding 0 both give 0.\<close>

definition orZero :: "real option \<Rightarrow> real" where
  "orZero c = (case c of None \<Rightarrow> 0 | Some v \<Rightarrow> v)"

text \<open>\<open>a || b\<close> on two cells: \<open>a\<close> when it is present and nonzero, otherwise \<open>b\<close>.\<close>

definition orElse :: "real option \<Rightarrow> real option \<Rightarrow> real option" where
  "orElse a b = (case a of None \<Rightarrow> b | Some v \<Rightarrow> if v = 0 then b else Some v)"

definition standardNodes :: "DataNode list" where
  "standardNodes =
    [\<lparr>name = ''Ore'', nid = ''ore'', category = Process\<rparr>,
     \<lparr>name = ''Concentrate'', nid = ''concentrate'', category = Process\<rparr>,
     \<lparr>name = ''Metal'', nid = ''metal'', category = Process\<rparr>,
     \<lparr>name = ''NdFeB Magnet'', nid = ''magnet'', category = Process\<rparr>,
     \<lparr>name = ''Other Semi-products'', nid = ''other_semi'', category = Process\<rparr>,
     \<lparr>name = ''Wind Turbine'', nid = ''wind_turbine'', category = Process\<rparr>,
     \<lparr>name = ''Other Final Products'', nid = ''other_final'', category = Process\<rparr>,
     \<lparr>name = ''Loss'', nid = ''loss'', category = LossCat\<rparr>,
     \<lparr>name = ''Export'', nid = ''export'', category = TradeCat\<rparr>,
     \<lparr>name = ''End of Life'', nid = ''eol'', category = EndOfLife\<rparr>]"

text \<open>
  \<open>addLink\<close> pushes onto the \<open>links\<close> array of the enclosing call; the array is passed
  in and returned.
\<close>

definition addLink ::
  "nat \<Rightarrow> nat \<Rightarrow> real \<Rightarrow> LinkType \<Rightarrow> bool \<Rightarrow> nat DataLink list \<Rightarrow> nat DataLink list" where
  "addLink s t v ty forceVisible ls =
    (let absValue0 = \<bar>v\<bar>;
         realV = absValue0;
         absValue = (if forceVisible \<and> absValue0 < 0.25 then 0.25 else absValue0)
     in if absValue > 0.001
        then ls @ [\<lparr>source = s, target = t, linkValue = absValue, realValue = realV,
                    linkType = ty\<rparr>]
        else ls)"

definition processYearData :: "NdDataRow \<Rightarrow> BuiltGraph" where
  "processYearData row =
    (let ls = [];
         ls = addLink 0 1 (orZero (row ''domestic-ore'')) Domestic False ls;
         exportConcentrate =
           orZero (row ''trade-concentrate'') + orZero (row ''export-concentrate'');
         ls = addLink 1 8 exportConcentrate Trade False ls;
         ls = addLink 1 7 (orZero (row ''loss-concentrate'')) Loss False ls;
         ls = addLink 1 2 (orZero (row ''domestic-concentrate'')) Domestic False ls;
         exportMetal = orZero (row ''trade-metal'') + orZero (row ''export-metal'');
         ls = addLink 2 8 exportMetal Trade False ls;
         ls = addLink 2 7 (orZero (row ''loss-metal'')) Loss False ls;
         ls = addLink 2 3 (orZero (row ''domestic-metal'')) Domestic False ls;
         otherSemiFlow = orZero (row ''domestic-other semi-products'');
         ls = addLink 2 4 otherSemiFlow Domestic False ls;
         magnetEx = orZero (row ''permanent magnets-ex(kt)'');
         tradeMagnet = orZero (row ''trade-permenent magnets'');
         exportMagnet = orZero (row ''export-permenent magnets'');
         totalMagnetExport = magnetEx + tradeMagnet + exportMagnet;
         ls = addLink 3 8 totalMagnetExport Trade False ls;
         ls = addLink 3 7 (orZero (row ''loss-permenent magnets'')) Loss False ls;
         exportOtherSemi = orZero (row ''export-other semi-products'');
         ls = addLink 4 8 exportOtherSemi Trade False ls;
         ls = addLink 3 5 (orZero (row ''domestic-permenent magnets'')) Domestic False ls;
         ls = addLink 3 6 (orZero (row ''domestic-other finalproducts'')) Domestic False ls;
         ls = addLink 4 6 otherSemiFlow Domestic False ls;
         exportWindTurbine =
           orZero (row ''trade-wind turbine'') + orZero (row ''export-wind turbine'');
         ls = addLink 5 8 exportWindTurbine Trade False ls;
         exportOtherFinal = orZero (row ''export-other finalproducts'');
         ls = addLink 6 8 exportOtherFinal Trade False ls;
         ls = addLink 5 9 (orZero (row ''Wind Turbine outflow'')) Domestic True ls;
         ls = addLink 6 9 (orZero (row ''Others outflow'')) Domestic True ls;
         eolToLoss = orZero (orElse (row ''end of life'') (row ''end of life to loss''));
         ls = addLink 9 7 eolToLoss Loss True ls
     in \<lparr>nodes = standardNodes, links = ls\<rparr>)"

text \<open>The row \<open>{year: 2020, 'domestic-ore': 100}\<close>.\<close>

definition row_2020 :: NdDataRow where
  "row_2020 = [''year'' \<mapsto> 2020, ''domestic-ore'' \<mapsto> 100]"

text \<open>The links of the built graph that run between two given node positions.\<close>

definition linksBetween :: "nat \<Rightarrow> nat \<Rightarrow> BuiltGraph \<Rightarrow> nat DataLink list" where
  "linksBetween s t g = filter (\<lambda>l. source l = s \<and> target l = t) (links g)"

text \<open>
  The three calls of \<open>addLink\<close> with \<open>forceVisible = true\<close> are the only ones between
  these pairs of nodes: wind\_turbine (5) to eol (9), other\_final (6) to eol (9), and
  eol (9) to loss (7).
\<close>

definition forceVisibleLinks :: "BuiltGraph \<Rightarrow> nat DataLink list" where
  "forceVisibleLinks g = linksBetween 5 9 g @ linksBetween 6 9 g @ linksBetween 9 7 g"

section \<open>Initial layout and saved layout (SankeyDiagram.tsx)\<close>

text \<open>
  The d3-sankey generator is a library outside the repository. It is a parameter of the
  model: configured with node width, node padding, alignment and extent, it either throws
  (\<open>Inl\<close>, with the value thrown) or returns the laid-out graph (\<open>Inr\<close>).
\<close>

record SankeyConfig =
  cfgNodeWidth :: real
  cfgNodePadding :: real
  cfgNodeAlign :: Align
  cfgExtent :: "(real \<times> real) \<times> (real \<times> real)"

type_synonym Generator = "SankeyConfig \<Rightarrow> BuiltGraph \<Rightarrow> string + Graph"

record Props =
  data :: BuiltGraph
  settings :: VisualizationSettings
  savedLayout :: "SavedLayoutMap option"
  canvasWidth :: real
  canvasHeight :: real

text \<open>
  The state of the component: the working graph (\<open>null\<close> at first), the link-offset table,
  and what has been written with \<open>console.error\<close> (label and value).
\<close>

record DiagramState =
  graph :: "Graph option"
  linkOffsets :: LinkOffsets
  console :: "(string \<times> string) list"

definition getLinkKey :: "SankeyLink \<Rightarrow> string" where
  "getLinkKey l = nid (source l) @ ''-'' @ nid (target l)"

definition getCenter :: "SankeyNode \<Rightarrow> real \<times> real" where
  "getCenter node = ((x0 node + x1 node) / 2, (y0 node + y1 node) / 2)"

text \<open>
  \<open>generated.nodes.forEach\<close> with a body that writes fields of the node it visits. The
  ends of the generated links are these same node objects, so the links see the writes.
\<close>

definition forEachNode :: "(SankeyNode \<Rightarrow> SankeyNode) \<Rightarrow> Graph \<Rightarrow> Graph" where
  "forEachNode f g =
    \<lparr>nodes = map f (nodes g),
     links = map (\<lambda>l. l\<lparr>source := f (source l), target := f (target l)\<rparr>) (links g)\<rparr>"

text \<open>
  The names of the members that every object inherits from \<open>Object.prototype\<close>
  (ECMAScript, with its annex for browsers).
\<close>

definition objectPrototypeMembers :: "string list" where
  "objectPrototypeMembers =
    [''constructor'', ''__defineGetter__'', ''__defineSetter__'', ''hasOwnProperty'',
     ''__lookupGetter__'', ''__lookupSetter__'', ''isPrototypeOf'', ''propertyIsEnumerable'',
     ''toString'', ''valueOf'', ''__proto__'', ''toLocaleString'']"

text \<open>
  What the read \<open>savedLayout.nodes[node.id]\<close> evaluates to: \<open>undefined\<close>, a saved entry,
  a falsy value that is no entry (the number 0 or \<open>false\<close>), or a truthy value that is no
  entry (an inherited function or object, a nonzero number, \<open>true\<close>); a value that is no
  entry has no \<open>x0\<close>, \<open>x1\<close>, \<open>y0\<close>, \<open>y1\<close> or \<open>isRotated\<close>.
\<close>

datatype SavedRead = NoValue | Entry SavedNodeLayout | FalsyValue | OtherValue

definition numberRead :: "real \<Rightarrow> SavedRead" where
  "numberRead v = (if v = 0 then FalsyValue else OtherValue)"

text \<open>
  The property read: an own entry first; then the prototype, which is an entry after an
  assignment to \<open>__proto__\<close> (the key \<open>__proto__\<close> then reads that entry, and the names
  of its five fields read its numbers and its flag); then \<open>Object.prototype\<close>.
\<close>

definition readNodeTable :: "NodeTable \<Rightarrow> string \<Rightarrow> SavedRead" where
  "readNodeTable t k =
    (case ownEntries t k of
       Some e \<Rightarrow> Entry e
     | None \<Rightarrow>
         (case protoEntry t of
            None \<Rightarrow> if k \<in> set objectPrototypeMembers then OtherValue else NoValue
          | Some p \<Rightarrow>
              if k = ''__proto__'' then Entry p
              else if k = ''x0'' then numberRead (saved_x0 p)
              else if k = ''x1'' then numberRead (saved_x1 p)
              else if k = ''y0'' then numberRead (saved_y0 p)
              else if k = ''y1'' then numberRead (saved_y1 p)
              else if k = ''isRotated'' then
                (if saved_isRotated p then OtherValue else FalsyValue)
              else if k \<in> set objectPrototypeMembers then OtherValue
              else NoValue))"

text \<open>
  The body of the loop that applies the saved node layout: \<open>if (saved)\<close> skips
  \<open>undefined\<close> and the falsy values. A truthy value that is no entry makes the five writes
  store \<open>undefined\<close>: the flag becomes undefined, and the rectangle leaves the number
  model (as NaN does), which the model records as reals of which nothing is known.
\<close>

definition applySavedNode :: "SavedLayoutMap \<Rightarrow> SankeyNode \<Rightarrow> SankeyNode" where
  "applySavedNode sl node =
    (case readNodeTable (savedNodes sl) (nid node) of
       NoValue \<Rightarrow> node
     | FalsyValue \<Rightarrow> node
     | Entry saved \<Rightarrow>
         node\<lparr>x0 := saved_x0 saved, x1 := saved_x1 saved, y0 := saved_y0 saved,
              y1 := saved_y1 saved, isRotated := Some (saved_isRotated saved)\<rparr>
     | OtherValue \<Rightarrow>
         node\<lparr>x0 := undefined, x1 := undefined, y0 := undefined, y1 := undefined,
              isRotated := None\<rparr>)"

definition defaultLayoutNode :: "real \<Rightarrow> real \<Rightarrow> SankeyNode \<Rightarrow> SankeyNode" where
  "defaultLayoutNode w h node =
    (let topBarY = 20;
         topBarHeight = 20;
         bottomBarY = h - 40;
         bottomBarHeight = 20;
         nw = x1 node - x0 node;
         nh = y1 node - y0 node;
         centerY = h / 2;
         halfH = nh / 2
     in if nid node = ''export'' then
          node\<lparr>x0 := w / 2, x1 := w - 100, y0 := topBarY, y1 := topBarY + topBarHeight,
               isRotated := Some True\<rparr>
        else if nid node = ''loss'' then
          node\<lparr>x0 := 100, x1 := w - 100, y0 := bottomBarY,
               y1 := bottomBarY + bottomBarHeight, isRotated := Some True\<rparr>
        else if nid node = ''eol'' then
          node\<lparr>x0 := 1050, x1 := 1050 + nw, y0 := centerY, y1 := centerY + nh\<rparr>
        else if nid node = ''ore'' then
          node\<lparr>x0 := 50, x1 := 50 + nw, y0 := centerY - halfH, y1 := centerY + halfH\<rparr>
        else if nid node = ''concentrate'' then
          node\<lparr>x0 := 250, x1 := 250 + nw, y0 := centerY - halfH, y1 := centerY + halfH\<rparr>
        else if nid node = ''metal'' then
          node\<lparr>x0 := 450, x1 := 450 + nw, y0 := centerY - halfH, y1 := centerY + halfH\<rparr>
        else if nid node = ''magnet'' then
          node\<lparr>x0 := 650, x1 := 650 + nw, y0 := centerY - halfH - 50,
               y1 := centerY + halfH - 50\<rparr>
        else if nid node = ''other_semi'' then
          node\<lparr>x0 := 650, x1 := 650 + nw, y0 := centerY - halfH + 80,
               y1 := centerY + halfH + 80\<rparr>
        else if nid node = ''wind_turbine'' then
          node\<lparr>x0 := 900, x1 := 900 + nw, y0 := centerY - halfH - 50,
               y1 := centerY + halfH - 50\<rparr>
        else if nid node = ''other_final'' then
          node\<lparr>x0 := 900, x1 := 900 + nw, y0 := centerY - halfH + 50,
               y1 := centerY + halfH + 50\<rparr>
        else node)"

definition sankeyConfig :: "Props \<Rightarrow> SankeyConfig" where
  "sankeyConfig props =
    (let h = canvasHeight props;
         fs = flowScale (settings props);
         effectiveHeight = (h - 10) * (if fs = 0 then 0.9 else fs);
         verticalMargin = (h - effectiveHeight) / 2
     in \<lparr>cfgNodeWidth = nodeWidth (settings props),
         cfgNodePadding = nodePadding (settings props),
         cfgNodeAlign = align (settings props),
         cfgExtent = ((1, verticalMargin), (canvasWidth props - 1, h - verticalMargin))\<rparr>)"

text \<open>
  The effect that runs when the data or the flow scale change. It returns early on a
  graph without nodes; a throw of the generator is caught and logged, and \<open>setGraph\<close> is
  not reached.
\<close>

definition initialLayout :: "Generator \<Rightarrow> Props \<Rightarrow> DiagramState \<Rightarrow> DiagramState" where
  "initialLayout sankeyGenerator props st =
    (if nodes (data props) = [] then st
     else
       case sankeyGenerator (sankeyConfig props) (data props) of
         Inl e \<Rightarrow> st\<lparr>console := console st @ [(''Layout Error'', e)]\<rparr>
       | Inr generated \<Rightarrow>
           st\<lparr>graph := Some
             (case savedLayout props of
                Some sl \<Rightarrow> forEachNode (applySavedNode sl) generated
              | None \<Rightarrow>
                  forEachNode (defaultLayoutNode (canvasWidth props) (canvasHeight props))
                    generated)\<rparr>)"

text \<open>\<open>b || false\<close> on an optional flag.\<close>

definition orFalse :: "bool option \<Rightarrow> bool" where
  "orFalse b = (case b of None \<Rightarrow> False | Some v \<Rightarrow> v)"

definition snapshotNode :: "SankeyNode \<Rightarrow> SavedNodeLayout" where
  "snapshotNode n =
    \<lparr>saved_x0 = x0 n, saved_x1 = x1 n, saved_y0 = y0 n, saved_y1 = y1 n,
     saved_isRotated = orFalse (isRotated n)\<rparr>"

text \<open>
  The body of the loop of \<open>handleSaveClick\<close>: \<open>nodesMap[n.id] = {...}\<close>. The assignment
  creates or overwrites an own entry, except under the key \<open>__proto__\<close> when the table
  has no own entry of that name: it then replaces the prototype.
\<close>

definition saveNode :: "SankeyNode \<Rightarrow> NodeTable \<Rightarrow> NodeTable" where
  "saveNode n nodesMap =
    (if nid n = ''__proto__'' \<and> ownEntries nodesMap ''__proto__'' = None
     then nodesMap\<lparr>protoEntry := Some (snapshotNode n)\<rparr>
     else nodesMap\<lparr>ownEntries := (ownEntries nodesMap)(nid n \<mapsto> snapshotNode n)\<rparr>)"

text \<open>The object literal \<open>{}\<close>.\<close>

definition emptyTable :: NodeTable where
  "emptyTable = \<lparr>ownEntries = Map.empty, protoEntry = None\<rparr>"

text \<open>
  \<open>handleSaveClick\<close>: nothing is saved without a graph; otherwise the layout handed to
  \<open>onSaveLayout\<close> holds one entry per node id (a later node with the same id overwrites
  an earlier one) and a copy of the link-offset table.
\<close>

definition handleSaveClick :: "DiagramState \<Rightarrow> SavedLayoutMap option" where
  "handleSaveClick st =
    (case graph st of
       None \<Rightarrow> None
     | Some g \<Rightarrow>
         Some \<lparr>savedNodes = fold saveNode (nodes g) emptyTable,
               savedLinks = linkOffsets st\<rparr>)"

text \<open>The node rectangle and the rotation flag as the code reads it.\<close>

definition rect :: "SankeyNode \<Rightarrow> real \<times> real \<times> real \<times> real" where
  "rect n = (x0 n, x1 n, y0 n, y1 n)"

definition rotated :: "SankeyNode \<Rightarrow> bool" where
  "rotated n = orFalse (isRotated n)"

section \<open>The application around the diagram (App.tsx)\<close>

text \<open>
  The application holds the saved layout (\<open>null\<close> at first) and hands it to the diagram;
  the state of the diagram is the state of the component while it is mounted.
\<close>

record AppState =
  appSavedLayout :: "SavedLayoutMap option"
  diagram :: DiagramState

definition emptyState :: DiagramState where
  "emptyState = \<lparr>graph = None, linkOffsets = Map.empty, console = []\<rparr>"

definition initialApp :: AppState where
  "initialApp = \<lparr>appSavedLayout = None, diagram = emptyState\<rparr>"

text \<open>\<open>processedGraphData\<close> when no year is selected or no row is found.\<close>

definition emptyData :: BuiltGraph where
  "emptyData = \<lparr>nodes = [], links = []\<rparr>"

text \<open>
  d3-sankey lays out the node objects it is given and returns them: a generator keeps
  the nodes when the nodes of its result carry the ids of the nodes of its argument, in
  the same order.
\<close>

definition keepsNodes :: "Generator \<Rightarrow> bool" where
  "keepsNodes sankeyGenerator =
    (\<forall>cfg d generated. sankeyGenerator cfg d = Inr generated \<longrightarrow>
       map nid (nodes generated) = map nid (nodes d))"

text \<open>
  The states the application reaches. The data handed to the diagram is the graph built
  from a row, or the empty graph; the layout effect runs on it with the saved layout of
  the moment. \<open>setSavedLayout\<close> has one caller, the save action. Dragging, resizing and
  rotating a node and the node-width effect write rectangles and flags of the nodes of
  the working graph and leave their ids alone; dragging a link end and the effect that
  copies the saved link table write the link-offset table. The component is unmounted when
  the data has no nodes and starts from its initial state when mounted again.
\<close>

inductive reachable :: "Generator \<Rightarrow> AppState \<Rightarrow> bool" for sankeyGenerator :: Generator where
  start: "reachable sankeyGenerator initialApp"
| rebuild:
    "reachable sankeyGenerator s \<Longrightarrow> d = emptyData \<or> d = processYearData row \<Longrightarrow>
     reachable sankeyGenerator
       (s\<lparr>diagram := initialLayout sankeyGenerator
            \<lparr>data = d, settings = st, savedLayout = appSavedLayout s,
             canvasWidth = w, canvasHeight = h\<rparr> (diagram s)\<rparr>)"
| save:
    "reachable sankeyGenerator s \<Longrightarrow> handleSaveClick (diagram s) = Some layout \<Longrightarrow>
     reachable sankeyGenerator (s\<lparr>appSavedLayout := Some layout\<rparr>)"
| edit:
    "reachable sankeyGenerator s \<Longrightarrow> graph (diagram s) = Some g \<Longrightarrow>
     map nid (nodes g') = map nid (nodes g) \<Longrightarrow>
     reachable sankeyGenerator (s\<lparr>diagram := (diagram s)\<lparr>graph := Some g'\<rparr>\<rparr>)"
| offsets:
    "reachable sankeyGenerator s \<Longrightarrow>
     reachable sankeyGenerator (s\<lparr>diagram := (diagram s)\<lparr>linkOffsets := offs\<rparr>\<rparr>)"
| remount:
    "reachable sankeyGenerator s \<Longrightarrow> reachable sankeyGenerator (s\<lparr>diagram := emptyState\<rparr>)"

text \<open>
  The table holds an entry under a key: as an own entry, or, under \<open>__proto__\<close>, as the
  prototype.
\<close>

definition holdsEntry :: "NodeTable \<Rightarrow> string \<Rightarrow> SavedNodeLayout \<Rightarrow> bool" where
  "holdsEntry t k e =
    (ownEntries t k = Some e
     \<or> (k = ''__proto__'' \<and> ownEntries t k = None \<and> protoEntry t = Some e))"

text \<open>
  No saved entry exists for a node: there is no saved layout, or the read of its id in the
  saved node table gives no entry.
\<close>

definition noSavedEntry :: "SavedLayoutMap option \<Rightarrow> SankeyNode \<Rightarrow> bool" where
  "noSavedEntry saved node =
    (case saved of
       None \<Rightarrow> True
     | Some sl \<Rightarrow>
         (case readNodeTable (savedNodes sl) (nid node) of Entry e \<Rightarrow> False | _ \<Rightarrow> True))"

section \<open>Routing (routedGraph in SankeyDiagram.tsx)\<close>

text \<open>
  The eight bucket names \<open>top\<close>, \<open>bottom\<close>, \<open>left\<close>, \<open>right\<close>, \<open>inTop\<close>, \<open>inBottom\<close>,
  \<open>inLeft\<close>, \<open>inRight\<close>: whether the name starts with \<open>in\<close>, and the side it names.
\<close>

type_synonym BucketName = "bool \<times> Side"

definition startsWithIn :: "BucketName \<Rightarrow> bool" where
  "startsWithIn b = fst b"

definition isHorizontalEdge :: "BucketName \<Rightarrow> bool" where
  "isHorizontalEdge b = (snd b = Top \<or> snd b = Bottom)"

text \<open>\<open>l.width || 1\<close>.\<close>

definition linkWidth :: "SankeyLink \<Rightarrow> real" where
  "linkWidth l = (case width l of None \<Rightarrow> 1 | Some w \<Rightarrow> if w = 0 then 1 else w)"

definition sourceSideOf :: "LinkOffsets \<Rightarrow> SankeyLink \<Rightarrow> Side" where
  "sourceSideOf offs l =
    (let saved = offs (getLinkKey l);
         sW = x1 (source l) - x0 (source l);
         sH = y1 (source l) - y0 (source l);
         sourceIsHorizontal = sW > sH;
         sC = getCenter (source l);
         tC = getCenter (target l)
     in case Option.bind saved sourceSide of
          Some sd \<Rightarrow> sd
        | None \<Rightarrow>
            if sourceIsHorizontal then (if snd tC > snd sC then Bottom else Top)
            else (if fst tC > fst sC then Right else Left))"

definition targetSideOf :: "LinkOffsets \<Rightarrow> SankeyLink \<Rightarrow> Side" where
  "targetSideOf offs l =
    (let saved = offs (getLinkKey l);
         tW = x1 (target l) - x0 (target l);
         tH = y1 (target l) - y0 (target l);
         targetIsHorizontal = tW > tH;
         sC = getCenter (source l);
         tC = getCenter (target l)
     in case Option.bind saved targetSide of
          Some sd \<Rightarrow> sd
        | None \<Rightarrow>
            if targetIsHorizontal then (if snd sC > snd tC then Bottom else Top)
            else (if fst sC > fst tC then Right else Left))"

text \<open>
  \<open>nodeBuckets\<close>: for a node position and a bucket name, the links pushed so far. A link
  object is named by its position in \<open>graph.links\<close>.
\<close>

type_synonym NodeBuckets = "nat \<Rightarrow> BucketName \<Rightarrow> nat list"

definition pushBucket :: "nat \<Rightarrow> BucketName \<Rightarrow> nat \<Rightarrow> NodeBuckets \<Rightarrow> NodeBuckets" where
  "pushBucket i b k nb = nb(i := (nb i)(b := nb i b @ [k]))"

text \<open>\<open>{ ...l.sourceCoords!, side }\<close>: the old record, if any, with the side replaced.\<close>

definition withSide :: "Coords option \<Rightarrow> Side \<Rightarrow> Coords" where
  "withSide old s =
    (case old of None \<Rightarrow> \<lparr>cx = None, cy = None, side = s\<rparr> | Some c \<Rightarrow> c\<lparr>side := s\<rparr>)"

text \<open>The body of the first loop (1. Determine Sides), for the link at position \<open>k\<close>.\<close>

definition determineSides ::
  "LinkOffsets \<Rightarrow> nat \<Rightarrow> NodeBuckets \<times> SankeyLink list \<Rightarrow> NodeBuckets \<times> SankeyLink list" where
  "determineSides offs k st =
    (let nb = fst st;
         ls = snd st;
         l = ls ! k;
         sSide = sourceSideOf offs l;
         tSide = targetSideOf offs l;
         nb = pushBucket (index (source l)) (False, sSide) k nb;
         nb = pushBucket (index (target l)) (True, tSide) k nb;
         l = l\<lparr>sourceCoords := Some (withSide (sourceCoords l) sSide),
               targetCoords := Some (withSide (targetCoords l) tSide)\<rparr>
     in (nb, ls[k := l]))"

text \<open>The manual offset saved for the end of the link that lies in this bucket.\<close>

definition manualPosOf :: "LinkOffsets \<Rightarrow> BucketName \<Rightarrow> SankeyLink \<Rightarrow> real option" where
  "manualPosOf offs b l =
    (let savedOffset = offs (getLinkKey l)
     in if startsWithIn b then Option.bind savedOffset targetOffset
        else Option.bind savedOffset sourceOffset)"

definition posOnEdgeOf ::
  "LinkOffsets \<Rightarrow> BucketName \<Rightarrow> real \<Rightarrow> real \<Rightarrow> SankeyLink \<Rightarrow> real" where
  "posOnEdgeOf offs b edgeLength currentPos l =
    (let lw = linkWidth l;
         posOnEdge = (case manualPosOf offs b l of
                        Some manualPos \<Rightarrow> manualPos - lw / 2
                      | None \<Rightarrow> currentPos)
     in max 0 (min posOnEdge (edgeLength - lw)))"

definition endpoint :: "SankeyNode \<Rightarrow> BucketName \<Rightarrow> real \<Rightarrow> Coords" where
  "endpoint node b mid =
    (if snd b = Right then \<lparr>cx = Some (x1 node), cy = Some (y0 node + mid), side = snd b\<rparr>
     else if snd b = Left then \<lparr>cx = Some (x0 node), cy = Some (y0 node + mid), side = snd b\<rparr>
     else if snd b = Bottom then \<lparr>cx = Some (x0 node + mid), cy = Some (y1 node), side = snd b\<rparr>
     else \<lparr>cx = Some (x0 node + mid), cy = Some (y0 node), side = snd b\<rparr>)"

text \<open>The body of the loop of \<open>getCoords\<close>: the link with its end in this bucket placed.\<close>

definition placeLink ::
  "LinkOffsets \<Rightarrow> SankeyNode \<Rightarrow> BucketName \<Rightarrow> real \<Rightarrow> real \<Rightarrow> SankeyLink \<Rightarrow> SankeyLink" where
  "placeLink offs node b edgeLength currentPos l =
    (let lw = linkWidth l;
         posOnEdge = posOnEdgeOf offs b edgeLength currentPos l;
         mid = posOnEdge + lw / 2;
         c = endpoint node b mid
     in if startsWithIn b then l\<lparr>targetCoords := Some c\<rparr> else l\<lparr>sourceCoords := Some c\<rparr>)"

text \<open>
  The loop of \<open>getCoords\<close> over the sorted bucket: every link, manual or not, moves the
  cursor on by its width.
\<close>

fun placeLinks ::
  "LinkOffsets \<Rightarrow> SankeyNode \<Rightarrow> BucketName \<Rightarrow> real \<Rightarrow> nat list \<Rightarrow> real \<Rightarrow>
   SankeyLink list \<Rightarrow> SankeyLink list" where
  "placeLinks offs node b edgeLength [] currentPos ls = ls"
| "placeLinks offs node b edgeLength (k # ks) currentPos ls =
     placeLinks offs node b edgeLength ks (currentPos + linkWidth (ls ! k))
       (ls[k := placeLink offs node b edgeLength currentPos (ls ! k)])"

text \<open>
  The key of the default sort: the centre of the node at the other end of the link, its
  x for a bucket on a horizontal edge and its y otherwise. The comparator is the
  difference of two keys, and \<open>Array.prototype.sort\<close> is stable, as \<open>sort_key\<close> is.
\<close>

definition sortKeyOf :: "BucketName \<Rightarrow> SankeyLink \<Rightarrow> real" where
  "sortKeyOf b l =
    (let other = (if startsWithIn b then source l else target l);
         c = getCenter other
     in if isHorizontalEdge b then fst c else snd c)"

definition edgeLengthOf :: "SankeyNode \<Rightarrow> BucketName \<Rightarrow> real" where
  "edgeLengthOf node b =
    (let nodeW = x1 node - x0 node;
         nodeH = y1 node - y0 node
     in if isHorizontalEdge b then nodeW else nodeH)"

text \<open>
  \<open>getCoords\<close> for one bucket of one node. \<open>links.reduce\<close> adds up the widths of all
  links of the bucket, starting from 0.
\<close>

definition getCoords ::
  "LinkOffsets \<Rightarrow> SankeyNode \<Rightarrow> nat list \<Rightarrow> BucketName \<Rightarrow> SankeyLink list \<Rightarrow> SankeyLink list"
  where
  "getCoords offs node bucket b ls =
    (if bucket = [] then ls
     else
       let sorted = sort_key (\<lambda>k. sortKeyOf b (ls ! k)) bucket;
           totalValue = (\<Sum>k\<leftarrow>sorted. linkWidth (ls ! k));
           edgeLength = edgeLengthOf node b;
           currentPos = max 0 ((edgeLength - totalValue) / 2)
       in placeLinks offs node b edgeLength sorted currentPos ls)"

definition bucketNames :: "BucketName list" where
  "bucketNames =
    [(False, Top), (False, Bottom), (False, Left), (False, Right),
     (True, Top), (True, Bottom), (True, Left), (True, Right)]"

text \<open>The body of the second loop over the nodes: \<open>getCoords\<close> for the eight buckets.\<close>

definition routeNode ::
  "LinkOffsets \<Rightarrow> SankeyNode list \<Rightarrow> NodeBuckets \<Rightarrow> nat \<Rightarrow> SankeyLink list \<Rightarrow> SankeyLink list"
  where
  "routeNode offs ns nb i ls = fold (\<lambda>b. getCoords offs (ns ! i) (nb i b) b) bucketNames ls"

definition route :: "LinkOffsets \<Rightarrow> Graph \<Rightarrow> Graph" where
  "route offs g =
    (let st = fold (determineSides offs) [0..<length (links g)] (\<lambda>i b. [], links g);
         ls = fold (routeNode offs (nodes g) (fst st)) [0..<length (nodes g)] (snd st)
     in \<lparr>nodes = nodes g, links = ls\<rparr>)"

text \<open>
  A link end whose \<open>index\<close> names no node of the graph finds no bucket:
  \<open>nodeBuckets.get(...)\<close> is undefined and reading its field throws a TypeError.
\<close>

definition endsInRange :: "Graph \<Rightarrow> bool" where
  "endsInRange g =
    list_all (\<lambda>l. index (source l) < length (nodes g) \<and> index (target l) < length (nodes g))
      (links g)"

datatype RouteError = TypeError

definition routedGraph :: "LinkOffsets \<Rightarrow> Graph option \<Rightarrow> RouteError + Graph option" where
  "routedGraph offs graphState =
    (case graphState of
       None \<Rightarrow> Inr None
     | Some g \<Rightarrow> if endsInRange g then Inr (Some (route offs g)) else Inl TypeError)"

text \<open>
  Reading the routed graph: the end of a link that lies in a bucket, and where the link
  starts along the edge of the node (the distance of its centre from the start of the
  edge, less half its width).
\<close>

definition endCoords :: "BucketName \<Rightarrow> SankeyLink \<Rightarrow> Coords option" where
  "endCoords b l = (if startsWithIn b then targetCoords l else sourceCoords l)"

definition endNode :: "BucketName \<Rightarrow> SankeyLink \<Rightarrow> SankeyNode" where
  "endNode b l = (if startsWithIn b then target l else source l)"

definition startOnEdge :: "SankeyNode \<Rightarrow> BucketName \<Rightarrow> SankeyLink \<Rightarrow> real option" where
  "startOnEdge node b l =
    (case endCoords b l of
       None \<Rightarrow> None
     | Some c \<Rightarrow>
         (case (if isHorizontalEdge b then cx c else cy c) of
            None \<Rightarrow> None
          | Some v \<Rightarrow>
              Some (v - (if isHorizontalEdge b then x0 node else y0 node) - linkWidth l / 2)))"

subsection \<open>What the routing reads and what it writes\<close>

text \<open>
  The routing writes only \<open>sourceCoords\<close> and \<open>targetCoords\<close> of a link; everything it
  reads of a link is in the rest of the record.
\<close>

definition core :: "SankeyLink \<Rightarrow> SankeyLink" where
  "core l = l\<lparr>sourceCoords := None, targetCoords := None\<rparr>"

definition endSideOf :: "LinkOffsets \<Rightarrow> BucketName \<Rightarrow> SankeyLink \<Rightarrow> Side" where
  "endSideOf offs b l = (if startsWithIn b then targetSideOf offs l else sourceSideOf offs l)"

text \<open>The buckets as the first loop leaves them.\<close>

definition nodeBucketsOf :: "LinkOffsets \<Rightarrow> Graph \<Rightarrow> NodeBuckets" where
  "nodeBucketsOf offs g =
    fst (fold (determineSides offs) [0..<length (links g)] (\<lambda>i b. [], links g))"

text \<open>The order in which \<open>getCoords\<close> visits a bucket.\<close>

definition sortedBucket :: "BucketName \<Rightarrow> SankeyLink list \<Rightarrow> nat list \<Rightarrow> nat list" where
  "sortedBucket b ls bucket = sort_key (\<lambda>k. sortKeyOf b (ls ! k)) bucket"

text \<open>
  The cursor \<open>currentPos\<close> when the loop of \<open>getCoords\<close> reaches link \<open>j\<close>: the start of
  the centred bundle plus the widths of all links visited before.
\<close>

definition cursorOf :: "SankeyNode \<Rightarrow> BucketName \<Rightarrow> SankeyLink list \<Rightarrow> nat list \<Rightarrow> nat \<Rightarrow> real"
  where
  "cursorOf node b ls bucket j =
    max 0 ((edgeLengthOf node b - (\<Sum>k\<leftarrow>sortedBucket b ls bucket. linkWidth (ls ! k))) / 2)
    + (\<Sum>k\<leftarrow>takeWhile (\<lambda>k. k \<noteq> j) (sortedBucket b ls bucket). linkWidth (ls ! k))"

text \<open>The bucket a link end is pushed to: node position and bucket name.\<close>

definition homeBucket :: "LinkOffsets \<Rightarrow> bool \<Rightarrow> SankeyLink \<Rightarrow> nat \<times> BucketName" where
  "homeBucket offs d l =
    (index (endNode (d, Top) l), (d, endSideOf offs (d, Top) l))"

text \<open>The links, by position, whose end of direction \<open>fst b\<close> is pushed to bucket \<open>b\<close> of node \<open>i\<close>.\<close>

definition bucketOf :: "LinkOffsets \<Rightarrow> SankeyLink list \<Rightarrow> nat \<Rightarrow> BucketName \<Rightarrow> nat list" where
  "bucketOf offs ls i b = filter (\<lambda>k. homeBucket offs (fst b) (ls ! k) = (i, b)) [0..<length ls]"

text \<open>The attachment record \<open>getCoords\<close> computes for the end of direction \<open>d\<close> of link \<open>k\<close>.\<close>

definition placedCoords ::
  "LinkOffsets \<Rightarrow> SankeyNode list \<Rightarrow> SankeyLink list \<Rightarrow> bool \<Rightarrow> nat \<Rightarrow> Coords" where
  "placedCoords offs ns ls d k =
    (let i = fst (homeBucket offs d (ls ! k));
         b = snd (homeBucket offs d (ls ! k));
         node = ns ! i;
         currentPos = cursorOf node b ls (bucketOf offs ls i b) k
     in endpoint node b
          (posOnEdgeOf offs b (edgeLengthOf node b) currentPos (ls ! k) + linkWidth (ls ! k) / 2))"

definition routedLinks :: "LinkOffsets \<Rightarrow> SankeyNode list \<Rightarrow> SankeyLink list \<Rightarrow> SankeyLink list"
  where
  "routedLinks offs ns ls =
    map (\<lambda>k. (ls ! k)\<lparr>sourceCoords := Some (placedCoords offs ns ls False k),
                      targetCoords := Some (placedCoords offs ns ls True k)\<rparr>)
      [0..<length ls]"

subsection \<open>Concrete inputs for the layout\<close>

definition appSettings :: VisualizationSettings where
  "appSettings = \<lparr>nodeWidth = 25, nodePadding = 30, flowScale = 0.9, align = Justify\<rparr>"

definition oreNode :: SankeyNode where
  "oreNode = \<lparr>name = ''Ore'', nid = ''ore'', category = Process, index = 0,
              x0 = 1, x1 = 26, y0 = 44.5, y1 = 755.5, isRotated = None\<rparr>"

definition exportNode :: SankeyNode where
  "exportNode = \<lparr>name = ''Export'', nid = ''export'', category = TradeCat, index = 1,
                 x0 = 600, x1 = 1100, y0 = 20, y1 = 40, isRotated = Some True\<rparr>"

definition twoNodeGraph :: Graph where
  "twoNodeGraph = \<lparr>nodes = [oreNode, exportNode], links = []\<rparr>"

text \<open>
  A generator that keeps the nodes: it gives every node the full extent in height and
  the configured width at the left, and every link its value as width.
\<close>

definition stackNode :: "SankeyConfig \<Rightarrow> nat \<times> DataNode \<Rightarrow> SankeyNode" where
  "stackNode cfg p =
    \<lparr>name = name (snd p), nid = nid (snd p), category = category (snd p), index = fst p,
     x0 = fst (fst (cfgExtent cfg)), x1 = fst (fst (cfgExtent cfg)) + cfgNodeWidth cfg,
     y0 = snd (fst (cfgExtent cfg)), y1 = snd (snd (cfgExtent cfg)), isRotated = None\<rparr>"

definition stackLink :: "SankeyNode list \<Rightarrow> nat DataLink \<Rightarrow> SankeyLink" where
  "stackLink ns l =
    \<lparr>source = ns ! source l, target = ns ! target l, linkValue = linkValue l,
     realValue = realValue l, linkType = linkType l, width = Some (linkValue l),
     sourceCoords = None, targetCoords = None\<rparr>"

definition stackGraph :: "SankeyConfig \<Rightarrow> BuiltGraph \<Rightarrow> Graph" where
  "stackGraph cfg d =
    (let ns = map (stackNode cfg) (enumerate 0 (nodes d))
     in \<lparr>nodes = ns, links = map (stackLink ns) (links d)\<rparr>)"

definition stackGenerator :: Generator where
  "stackGenerator cfg d =
    (if list_all (\<lambda>l. source l < length (nodes d) \<and> target l < length (nodes d)) (links d)
     then Inr (stackGraph cfg d)
     else Inl ''missing'')"

definition throwing :: "string \<Rightarrow> Generator" where
  "throwing e = (\<lambda>cfg d. Inl e)"

definition appProps :: "SavedLayoutMap option \<Rightarrow> Props" where
  "appProps sl = \<lparr>data = processYearData row_2020, settings = appSettings,
                  savedLayout = sl, canvasWidth = 1200, canvasHeight = 800\<rparr>"

definition workingState :: DiagramState where
  "workingState = \<lparr>graph = Some twoNodeGraph, linkOffsets = Map.empty, console = []\<rparr>"

text \<open>
  The application after the first layout of the row of 2020, and after the layout has
  been saved there; the row of 2021 that is selected next.
\<close>

definition laidOutGraph :: Graph where
  "laidOutGraph =
    forEachNode (defaultLayoutNode 1200 800)
      (stackGraph (sankeyConfig (appProps None)) (processYearData row_2020))"

definition laidOutApp :: AppState where
  "laidOutApp =
    initialApp\<lparr>diagram := initialLayout stackGenerator (appProps None) (diagram initialApp)\<rparr>"

definition savedApp :: AppState where
  "savedApp = laidOutApp\<lparr>appSavedLayout := handleSaveClick (diagram laidOutApp)\<rparr>"

definition row_2021 :: NdDataRow where
  "row_2021 = [''year'' \<mapsto> 2021, ''domestic-ore'' \<mapsto> 80, ''Wind Turbine outflow'' \<mapsto> 0.1,
               ''Others outflow'' \<mapsto> - 3, ''end of life'' \<mapsto> 0, ''end of life to loss'' \<mapsto> 0.2]"

definition nextProps :: "SavedLayoutMap option \<Rightarrow> Props" where
  "nextProps sl = \<lparr>data = processYearData row_2021, settings = appSettings,
                   savedLayout = sl, canvasWidth = 1200, canvasHeight = 800\<rparr>"

subsection \<open>Concrete inputs for the routing\<close>

definition metalNode :: SankeyNode where
  "metalNode = \<lparr>name = ''Metal'', nid = ''metal'', category = Process, index = 0,
                x0 = 450, x1 = 475, y0 = 350, y1 = 450, isRotated = None\<rparr>"

definition magnetNode :: SankeyNode where
  "magnetNode = \<lparr>name = ''NdFeB Magnet'', nid = ''magnet'', category = Process, index = 1,
                 x0 = 650, x1 = 675, y0 = 300, y1 = 400, isRotated = None\<rparr>"

definition otherSemiNode :: SankeyNode where
  "otherSemiNode = \<lparr>name = ''Other Semi-products'', nid = ''other_semi'', category = Process,
                    index = 2, x0 = 650, x1 = 675, y0 = 430, y1 = 530, isRotated = None\<rparr>"

definition mkLink :: "SankeyNode \<Rightarrow> SankeyNode \<Rightarrow> real \<Rightarrow> SankeyLink" where
  "mkLink s t w = \<lparr>source = s, target = t, linkValue = w, realValue = w,
                   linkType = Domestic, width = Some w, sourceCoords = None,
                   targetCoords = None\<rparr>"

text \<open>Two links leave the right edge (length 100) of the metal node, widths 10 and 20.\<close>

definition forkGraph :: Graph where
  "forkGraph = \<lparr>nodes = [metalNode, magnetNode, otherSemiNode],
                links = [mkLink metalNode magnetNode 10, mkLink metalNode otherSemiNode 20]\<rparr>"

text \<open>The same with widths 60 and 60: together wider than the edge.\<close>

definition wideForkGraph :: Graph where
  "wideForkGraph = \<lparr>nodes = [metalNode, magnetNode, otherSemiNode],
                    links = [mkLink metalNode magnetNode 60, mkLink metalNode otherSemiNode 60]\<rparr>"

text \<open>The fork without its first link.\<close>

definition prunedForkGraph :: Graph where
  "prunedForkGraph = \<lparr>nodes = [metalNode, magnetNode, otherSemiNode],
                      links = [mkLink metalNode otherSemiNode 20]\<rparr>"

text \<open>A saved source offset of 90 for the link metal \<rightarrow> magnet.\<close>

definition manualOffsets :: LinkOffsets where
  "manualOffsets = [''metal-magnet'' \<mapsto>
     \<lparr>sourceOffset = Some 90, targetOffset = None, sourceSide = None, targetSide = None\<rparr>]"

text \<open>
  The fork as an earlier routing with other offsets could have left it: the links carry
  attachment records already.
\<close>

definition staleForkGraph :: Graph where
  "staleForkGraph = \<lparr>nodes = [metalNode, magnetNode, otherSemiNode],
     links =
       [(mkLink metalNode magnetNode 10)
          \<lparr>sourceCoords := Some \<lparr>cx = Some 475, cy = Some 440, side = Right\<rparr>,
           targetCoords := Some \<lparr>cx = Some 650, cy = Some 350, side = Left\<rparr>\<rparr>,
        (mkLink metalNode otherSemiNode 20)
          \<lparr>sourceCoords := Some \<lparr>cx = None, cy = None, side = Top\<rparr>\<rparr>]\<rparr>"

section \<open>Properties of the graph builder\<close>

lemma addLink_append:
  "addLink s t v ty f ls =
   ls @ (if (if f \<and> \<bar>v\<bar> < 0.25 then 0.25 else \<bar>v\<bar>) > 0.001
         then [\<lparr>source = s, target = t,
                 linkValue = (if f \<and> \<bar>v\<bar> < 0.25 then 0.25 else \<bar>v\<bar>),
                 realValue = \<bar>v\<bar>, linkType = ty\<rparr>]
         else [])"
  by (simp add: addLink_def Let_def)

lemma filter_addLink_plain:
  "filter (\<lambda>l. source l = a \<and> target l = b) (addLink s t v ty False ls) =
   filter (\<lambda>l. source l = a \<and> target l = b) ls @
   (if s = a \<and> t = b \<and> \<bar>v\<bar> > 0.001
    then [\<lparr>source = s, target = t, linkValue = \<bar>v\<bar>, realValue = \<bar>v\<bar>, linkType = ty\<rparr>]
    else [])"
  by (simp add: addLink_append)

lemma filter_addLink_force:
  "filter (\<lambda>l. source l = a \<and> target l = b) (addLink s t v ty True ls) =
   filter (\<lambda>l. source l = a \<and> target l = b) ls @
   (if s = a \<and> t = b
    then [\<lparr>source = s, target = t, linkValue = max 0.25 \<bar>v\<bar>, realValue = \<bar>v\<bar>,
            linkType = ty\<rparr>]
    else [])"
  by (simp add: addLink_append max_def)

lemmas filter_addLink = filter_addLink_plain filter_addLink_force

lemma linksBetween_2_4:
  "linksBetween 2 4 (processYearData row) =
   (let f = orZero (row ''domestic-other semi-products'')
    in if \<bar>f\<bar> > 0.001
       then [\<lparr>source = 2, target = 4, linkValue = \<bar>f\<bar>, realValue = \<bar>f\<bar>,
               linkType = Domestic\<rparr>]
       else [])"
  by (simp add: linksBetween_def processYearData_def Let_def filter_addLink)

lemma linksBetween_4_6:
  "linksBetween 4 6 (processYearData row) =
   (let f = orZero (row ''domestic-other semi-products'')
    in if \<bar>f\<bar> > 0.001
       then [\<lparr>source = 4, target = 6, linkValue = \<bar>f\<bar>, realValue = \<bar>f\<bar>,
               linkType = Domestic\<rparr>]
       else [])"
  by (simp add: linksBetween_def processYearData_def Let_def filter_addLink)

lemma linksBetween_5_9:
  "linksBetween 5 9 (processYearData row) =
   [\<lparr>source = 5, target = 9,
     linkValue = max 0.25 \<bar>orZero (row ''Wind Turbine outflow'')\<bar>,
     realValue = \<bar>orZero (row ''Wind Turbine outflow'')\<bar>, linkType = Domestic\<rparr>]"
  by (simp add: linksBetween_def processYearData_def Let_def filter_addLink)

lemma linksBetween_6_9:
  "linksBetween 6 9 (processYearData row) =
   [\<lparr>source = 6, target = 9,
     linkValue = max 0.25 \<bar>orZero (row ''Others outflow'')\<bar>,
     realValue = \<bar>orZero (row ''Others outflow'')\<bar>, linkType = Domestic\<rparr>]"
  by (simp add: linksBetween_def processYearData_def Let_def filter_addLink)

lemma linksBetween_9_7:
  "linksBetween 9 7 (processYearData row) =
   (let m = orZero (orElse (row ''end of life'') (row ''end of life to loss''))
    in [\<lparr>source = 9, target = 7, linkValue = max 0.25 \<bar>m\<bar>, realValue = \<bar>m\<bar>,
          linkType = Loss\<rparr>])"
  by (simp add: linksBetween_def processYearData_def Let_def filter_addLink)

text \<open>
  C1 (as stated, refuted). For the row \<open>{year: 2020, 'domestic-ore': 100}\<close> the built
  graph does not consist of the single link ore \<rightarrow> concentrate: the three
  force-visible calls push a link each although their columns are absent.
\<close>

theorem C1_single_link_counterexample:
  "links (processYearData row_2020) \<noteq>
     [\<lparr>source = 0, target = 1, linkValue = 100, realValue = 100, linkType = Domestic\<rparr>]
   \<and> length (links (processYearData row_2020)) = 4"
  by (simp add: processYearData_def row_2020_def Let_def addLink_def orZero_def orElse_def)

text \<open>
  C1 (amended). For the row \<open>{year: 2020, 'domestic-ore': 100}\<close> the built graph has the
  ten standard nodes and exactly four links, in this order: the domestic link
  ore \<rightarrow> concentrate with value 100 and realValue 100, then the force-visible links
  wind\_turbine \<rightarrow> eol and other\_final \<rightarrow> eol (domestic) and eol \<rightarrow> loss (loss), each
  with value 0.25 and realValue 0.
\<close>

theorem C1_row_2020_links:
  "processYearData row_2020 =
    \<lparr>nodes = standardNodes,
     links =
      [\<lparr>source = 0, target = 1, linkValue = 100, realValue = 100, linkType = Domestic\<rparr>,
       \<lparr>source = 5, target = 9, linkValue = 0.25, realValue = 0, linkType = Domestic\<rparr>,
       \<lparr>source = 6, target = 9, linkValue = 0.25, realValue = 0, linkType = Domestic\<rparr>,
       \<lparr>source = 9, target = 7, linkValue = 0.25, realValue = 0, linkType = Loss\<rparr>]\<rparr>"
  by (simp add: processYearData_def row_2020_def Let_def addLink_def orZero_def orElse_def)

text \<open>
  C5. For every row, each of the three force-visible transitions wind\_turbine \<rightarrow> eol,
  other\_final \<rightarrow> eol and eol \<rightarrow> loss yields exactly one link; its realValue is the
  magnitude of the cell it is computed from (0 when the cell is absent) and its value is
  the larger of 0.25 and that magnitude, so at least 0.25. With
  \<open>'Wind Turbine outflow'\<close> equal to 0 the link wind\_turbine \<rightarrow> eol is present with
  value 0.25 and realValue 0.
\<close>

theorem C5_force_visible:
  "(\<forall>v. row ''Wind Turbine outflow'' = Some v \<longrightarrow>
      linksBetween 5 9 (processYearData row) =
        [\<lparr>source = 5, target = 9, linkValue = max 0.25 \<bar>v\<bar>, realValue = \<bar>v\<bar>,
          linkType = Domestic\<rparr>])
   \<and> (row ''Wind Turbine outflow'' = None \<longrightarrow>
      linksBetween 5 9 (processYearData row) =
        [\<lparr>source = 5, target = 9, linkValue = 0.25, realValue = 0, linkType = Domestic\<rparr>])
   \<and> (\<forall>v. row ''Others outflow'' = Some v \<longrightarrow>
      linksBetween 6 9 (processYearData row) =
        [\<lparr>source = 6, target = 9, linkValue = max 0.25 \<bar>v\<bar>, realValue = \<bar>v\<bar>,
          linkType = Domestic\<rparr>])
   \<and> (row ''Others outflow'' = None \<longrightarrow>
      linksBetween 6 9 (processYearData row) =
        [\<lparr>source = 6, target = 9, linkValue = 0.25, realValue = 0, linkType = Domestic\<rparr>])
   \<and> (\<forall>v. row ''end of life'' = Some v \<and> v \<noteq> 0 \<longrightarrow>
      linksBetween 9 7 (processYearData row) =
        [\<lparr>source = 9, target = 7, linkValue = max 0.25 \<bar>v\<bar>, realValue = \<bar>v\<bar>,
          linkType = Loss\<rparr>])
   \<and> (\<forall>u. (row ''end of life'' = None \<or> row ''end of life'' = Some 0)
           \<and> row ''end of life to loss'' = Some u \<longrightarrow>
      linksBetween 9 7 (processYearData row) =
        [\<lparr>source = 9, target = 7, linkValue = max 0.25 \<bar>u\<bar>, realValue = \<bar>u\<bar>,
          linkType = Loss\<rparr>])
   \<and> ((row ''end of life'' = None \<or> row ''end of life'' = Some 0)
        \<and> row ''end of life to loss'' = None \<longrightarrow>
      linksBetween 9 7 (processYearData row) =
        [\<lparr>source = 9, target = 7, linkValue = 0.25, realValue = 0, linkType = Loss\<rparr>])
   \<and> length (forceVisibleLinks (processYearData row)) = 3
   \<and> (\<forall>l \<in> set (forceVisibleLinks (processYearData row)). 0.25 \<le> linkValue l)
   \<and> (row ''Wind Turbine outflow'' = Some 0 \<longrightarrow>
        linksBetween 5 9 (processYearData row) =
          [\<lparr>source = 5, target = 9, linkValue = 0.25, realValue = 0,
            linkType = Domestic\<rparr>])"
proof (intro conjI)
  show "\<forall>l \<in> set (forceVisibleLinks (processYearData row)). 0.25 \<le> linkValue l"
    by (simp add: forceVisibleLinks_def linksBetween_5_9 linksBetween_6_9 linksBetween_9_7
        Let_def max_def)
  show "length (forceVisibleLinks (processYearData row)) = 3"
    by (simp add: forceVisibleLinks_def linksBetween_5_9 linksBetween_6_9 linksBetween_9_7
        Let_def)
qed (auto simp add: linksBetween_5_9 linksBetween_6_9 linksBetween_9_7 Let_def orZero_def
       orElse_def)

theorem C5_force_visible_witness:
  "row_2021 ''Wind Turbine outflow'' = Some 0.1
   \<and> row_2021 ''Others outflow'' = Some (- 3)
   \<and> row_2021 ''end of life'' = Some 0
   \<and> row_2021 ''end of life to loss'' = Some 0.2
   \<and> linksBetween 5 9 (processYearData row_2021) =
       [\<lparr>source = 5, target = 9, linkValue = 0.25, realValue = 0.1, linkType = Domestic\<rparr>]
   \<and> linksBetween 6 9 (processYearData row_2021) =
       [\<lparr>source = 6, target = 9, linkValue = 3, realValue = 3, linkType = Domestic\<rparr>]
   \<and> linksBetween 9 7 (processYearData row_2021) =
       [\<lparr>source = 9, target = 7, linkValue = 0.25, realValue = 0.2, linkType = Loss\<rparr>]
   \<and> [''year'' \<mapsto> 2022, ''Wind Turbine outflow'' \<mapsto> (0::real)] ''Wind Turbine outflow'' = Some 0
   \<and> linksBetween 5 9
       (processYearData [''year'' \<mapsto> 2022, ''Wind Turbine outflow'' \<mapsto> 0]) =
       [\<lparr>source = 5, target = 9, linkValue = 0.25, realValue = 0, linkType = Domestic\<rparr>]"
proof -
  have cells: "row_2021 ''Wind Turbine outflow'' = Some 0.1"
    "row_2021 ''Others outflow'' = Some (- 3)"
    "row_2021 ''end of life'' = Some 0"
    "row_2021 ''end of life to loss'' = Some 0.2"
    "[''year'' \<mapsto> 2022, ''Wind Turbine outflow'' \<mapsto> (0::real)] ''Wind Turbine outflow'' = Some 0"
    by (simp_all add: row_2021_def)
  show ?thesis
    using C5_force_visible [of row_2021]
      C5_force_visible [of "[''year'' \<mapsto> 2022, ''Wind Turbine outflow'' \<mapsto> 0]"] cells
    by simp
qed

text \<open>
  C9. The magnitude of the link eol \<rightarrow> loss is taken from \<open>'end of life'\<close> when that cell
  is present and nonzero; when it is absent or 0 the cell \<open>'end of life to loss'\<close> is
  used (0 when that one is absent too).
\<close>

theorem C9_eol_fallback:
  "(\<forall>v. row ''end of life'' = Some v \<and> v \<noteq> 0 \<longrightarrow>
      linksBetween 9 7 (processYearData row) =
        [\<lparr>source = 9, target = 7, linkValue = max 0.25 \<bar>v\<bar>, realValue = \<bar>v\<bar>,
          linkType = Loss\<rparr>])
   \<and> (row ''end of life'' = None \<or> row ''end of life'' = Some 0 \<longrightarrow>
      linksBetween 9 7 (processYearData row) =
        [\<lparr>source = 9, target = 7,
          linkValue = max 0.25 \<bar>orZero (row ''end of life to loss'')\<bar>,
          realValue = \<bar>orZero (row ''end of life to loss'')\<bar>, linkType = Loss\<rparr>])"
  by (auto simp add: linksBetween_9_7 Let_def orZero_def orElse_def)

theorem C9_eol_fallback_witness:
  "[''end of life'' \<mapsto> (0::real), ''end of life to loss'' \<mapsto> 5] ''end of life'' = Some 0
   \<and> linksBetween 9 7
       (processYearData [''end of life'' \<mapsto> 0, ''end of life to loss'' \<mapsto> 5]) =
       [\<lparr>source = 9, target = 7, linkValue = 5, realValue = 5, linkType = Loss\<rparr>]
   \<and> linksBetween 9 7
       (processYearData [''end of life'' \<mapsto> 3, ''end of life to loss'' \<mapsto> 5]) =
       [\<lparr>source = 9, target = 7, linkValue = 3, realValue = 3, linkType = Loss\<rparr>]"
  using C9_eol_fallback [of "[''end of life'' \<mapsto> 0, ''end of life to loss'' \<mapsto> 5]"]
    C9_eol_fallback [of "[''end of life'' \<mapsto> 3, ''end of life to loss'' \<mapsto> 5]"]
  by (simp add: orZero_def)

text \<open>
  C10. For every row, the links metal \<rightarrow> other\_semi and other\_semi \<rightarrow> other\_final are
  both computed from the one cell \<open>'domestic-other semi-products'\<close>: each is emitted
  (once) exactly when the magnitude of that cell exceeds 0.001, and when both are
  present they carry the same value and the same realValue.
\<close>

theorem C10_other_semi_pair:
  "(linksBetween 2 4 (processYearData row) \<noteq> [] \<longleftrightarrow>
      \<bar>orZero (row ''domestic-other semi-products'')\<bar> > 0.001)
   \<and> (linksBetween 4 6 (processYearData row) \<noteq> [] \<longleftrightarrow>
      \<bar>orZero (row ''domestic-other semi-products'')\<bar> > 0.001)
   \<and> length (linksBetween 2 4 (processYearData row)) \<le> 1
   \<and> length (linksBetween 4 6 (processYearData row)) \<le> 1
   \<and> (\<forall>a \<in> set (linksBetween 2 4 (processYearData row)).
       \<forall>b \<in> set (linksBetween 4 6 (processYearData row)).
         linkValue a = linkValue b \<and> realValue a = realValue b
         \<and> realValue a = \<bar>orZero (row ''domestic-other semi-products'')\<bar>)"
  by (simp add: linksBetween_2_4 linksBetween_4_6 Let_def)

theorem C10_other_semi_pair_witness:
  "linksBetween 2 4 (processYearData [''domestic-other semi-products'' \<mapsto> 7]) =
     [\<lparr>source = 2, target = 4, linkValue = 7, realValue = 7, linkType = Domestic\<rparr>]
   \<and> linksBetween 4 6 (processYearData [''domestic-other semi-products'' \<mapsto> 7]) =
     [\<lparr>source = 4, target = 6, linkValue = 7, realValue = 7, linkType = Domestic\<rparr>]
   \<and> linksBetween 2 4 (processYearData [''domestic-other semi-products'' \<mapsto> 0.001]) = []
   \<and> linksBetween 4 6 (processYearData [''domestic-other semi-products'' \<mapsto> 0.001]) = []"
  using C10_other_semi_pair [of "[''domestic-other semi-products'' \<mapsto> 7]"]
    C10_other_semi_pair [of "[''domestic-other semi-products'' \<mapsto> 0.001]"]
  by (simp add: orZero_def linksBetween_2_4 linksBetween_4_6)

section \<open>Properties of the layout and of the saved layout\<close>

lemma nodes_forEachNode: "nodes (forEachNode f g) = map f (nodes g)"
  by (simp add: forEachNode_def)

subsection \<open>Reading the table that the save action builds\<close>

lemma read_holdsEntry: "holdsEntry t k e \<Longrightarrow> readNodeTable t k = Entry e"
  by (auto simp add: holdsEntry_def readNodeTable_def)

lemma saveNode_holds: "holdsEntry (saveNode n t) (nid n) (snapshotNode n)"
  by (simp add: holdsEntry_def saveNode_def)

lemma saveNode_keeps: "nid n \<noteq> k \<Longrightarrow> holdsEntry t k e \<Longrightarrow> holdsEntry (saveNode n t) k e"
  by (auto simp add: holdsEntry_def saveNode_def)

lemma fold_saveNode_keeps:
  "k \<notin> nid ` set ns \<Longrightarrow> holdsEntry t k e \<Longrightarrow> holdsEntry (fold saveNode ns t) k e"
proof (induction ns arbitrary: t)
  case Nil
  then show ?case by simp
next
  case (Cons a ns)
  then have "nid a \<noteq> k" "k \<notin> nid ` set ns" by auto
  then show ?case using Cons.IH Cons.prems(2) by (simp add: saveNode_keeps)
qed

lemma fold_saveNode_distinct:
  "distinct (map nid ns) \<Longrightarrow> n \<in> set ns \<Longrightarrow>
   holdsEntry (fold saveNode ns t) (nid n) (snapshotNode n)"
proof (induction ns arbitrary: t)
  case Nil
  then show ?case by simp
next
  case (Cons a ns)
  show ?case
  proof (cases "n = a")
    case True
    with Cons.prems have "nid a \<notin> nid ` set ns" by auto
    then have "holdsEntry (fold saveNode ns (saveNode a t)) (nid a) (snapshotNode a)"
      using saveNode_holds by (rule fold_saveNode_keeps)
    then show ?thesis using True by simp
  next
    case False
    with Cons show ?thesis by auto
  qed
qed

lemma applySavedNode_inherited:
  "isRotated (applySavedNode \<lparr>savedNodes = emptyTable, savedLinks = Map.empty\<rparr>
     (n\<lparr>nid := ''constructor'', isRotated := Some True\<rparr>)) = None"
  by (simp add: applySavedNode_def readNodeTable_def emptyTable_def objectPrototypeMembers_def)

lemma applySavedNode_entry:
  "readNodeTable (savedNodes sl) (nid m) = Entry (snapshotNode n) \<Longrightarrow>
   applySavedNode sl m =
     m\<lparr>x0 := x0 n, x1 := x1 n, y0 := y0 n, y1 := y1 n,
       isRotated := Some (orFalse (isRotated n))\<rparr>"
  by (simp add: applySavedNode_def snapshotNode_def)

lemma saved_roundtrip_nodes:
  assumes "graph st = Some g" and "distinct (map nid (nodes g))"
    and "map nid (nodes generated) = map nid (nodes g)"
    and "handleSaveClick st = Some sl"
  shows "nodes (forEachNode (applySavedNode sl) generated) =
    map2 (\<lambda>n m. m\<lparr>x0 := x0 n, x1 := x1 n, y0 := y0 n, y1 := y1 n,
                  isRotated := Some (orFalse (isRotated n))\<rparr>) (nodes g) (nodes generated)"
proof (rule nth_equalityI)
  have len: "length (nodes generated) = length (nodes g)"
    using assms(3) by (rule map_eq_imp_length_eq)
  show "length (nodes (forEachNode (applySavedNode sl) generated)) =
    length (map2 (\<lambda>n m. m\<lparr>x0 := x0 n, x1 := x1 n, y0 := y0 n, y1 := y1 n,
                  isRotated := Some (orFalse (isRotated n))\<rparr>) (nodes g) (nodes generated))"
    by (simp add: nodes_forEachNode len)
  fix j assume "j < length (nodes (forEachNode (applySavedNode sl) generated))"
  then have j: "j < length (nodes g)" "j < length (nodes generated)"
    by (simp_all add: nodes_forEachNode len)
  have sl: "savedNodes sl = fold saveNode (nodes g) emptyTable"
    using assms(1,4) by (auto simp add: handleSaveClick_def)
  have "nid (nodes generated ! j) = nid (nodes g ! j)"
    using assms(3) j by (metis nth_map)
  moreover have "holdsEntry (savedNodes sl) (nid (nodes g ! j)) (snapshotNode (nodes g ! j))"
    unfolding sl using assms(2) j(1) by (intro fold_saveNode_distinct) simp_all
  ultimately have "readNodeTable (savedNodes sl) (nid (nodes generated ! j)) =
      Entry (snapshotNode (nodes g ! j))"
    by (simp add: read_holdsEntry)
  then show "nodes (forEachNode (applySavedNode sl) generated) ! j =
    map2 (\<lambda>n m. m\<lparr>x0 := x0 n, x1 := x1 n, y0 := y0 n, y1 := y1 n,
                  isRotated := Some (orFalse (isRotated n))\<rparr>) (nodes g) (nodes generated) ! j"
    using j by (simp add: nodes_forEachNode applySavedNode_entry)
qed

text \<open>
  C6. Saving a graph whose nodes have pairwise different ids and applying the saved layout
  to a graph generated with the same node ids (the unmodified graph itself included)
  reproduces the saved rectangle (x0, x1, y0, y1) and rotation flag of every node,
  whatever rectangles the generator gave: the flag comes back as the code reads it, an
  undefined \<open>isRotated\<close> as \<open>false\<close>.
\<close>

theorem C6_save_apply_roundtrip:
  assumes "graph st = Some g" and "distinct (map nid (nodes g))"
    and "savedLayout props = handleSaveClick st"
    and "nodes (data props) \<noteq> []"
    and "sankeyGenerator (sankeyConfig props) (data props) = Inr generated"
    and "map nid (nodes generated) = map nid (nodes g)"
  shows "\<exists>g'. graph (initialLayout sankeyGenerator props st') = Some g'
     \<and> map rect (nodes g') = map rect (nodes g)
     \<and> map rotated (nodes g') = map rotated (nodes g)
     \<and> map isRotated (nodes g') = map (\<lambda>n. Some (orFalse (isRotated n))) (nodes g)"
proof -
  obtain sl where sl: "handleSaveClick st = Some sl"
    using assms(1) by (simp add: handleSaveClick_def)
  define g' where "g' = forEachNode (applySavedNode sl) generated"
  have len: "length (nodes generated) = length (nodes g)"
    using assms(6) by (rule map_eq_imp_length_eq)
  have ns: "nodes g' =
    map2 (\<lambda>n m. m\<lparr>x0 := x0 n, x1 := x1 n, y0 := y0 n, y1 := y1 n,
                  isRotated := Some (orFalse (isRotated n))\<rparr>) (nodes g) (nodes generated)"
    unfolding g'_def using assms(1,2,6) sl by (rule saved_roundtrip_nodes)
  have "graph (initialLayout sankeyGenerator props st') = Some g'"
    using assms(3,4,5) sl by (simp add: initialLayout_def g'_def)
  moreover have "map rect (nodes g') = map rect (nodes g)"
    using len by (intro nth_equalityI) (simp_all add: ns rect_def)
  moreover have "map isRotated (nodes g') = map (\<lambda>n. Some (orFalse (isRotated n))) (nodes g)"
    using len by (intro nth_equalityI) (simp_all add: ns)
  moreover have "map rotated (nodes g') = map rotated (nodes g)"
    using len by (intro nth_equalityI) (simp_all add: ns rotated_def orFalse_def)
  ultimately show ?thesis by blast
qed

text \<open>
  C7. When the generator throws on the supplied nodes and links, the effect logs the
  thrown value under the label "Layout Error" and leaves the working graph (and the
  link-offset table) as they were.
\<close>

theorem C7_layout_failure_keeps_graph:
  assumes "nodes (data props) \<noteq> []"
    and "sankeyGenerator (sankeyConfig props) (data props) = Inl e"
  shows "graph (initialLayout sankeyGenerator props st) = graph st
     \<and> linkOffsets (initialLayout sankeyGenerator props st) = linkOffsets st
     \<and> console (initialLayout sankeyGenerator props st) = console st @ [(''Layout Error'', e)]"
  using assms by (simp add: initialLayout_def)

theorem C7_layout_failure_keeps_graph_witness:
  "nodes (data (appProps None)) \<noteq> []
   \<and> throwing ''circular link'' (sankeyConfig (appProps None)) (data (appProps None))
       = Inl ''circular link''
   \<and> graph (initialLayout (throwing ''circular link'') (appProps None) workingState)
       = Some twoNodeGraph
   \<and> console (initialLayout (throwing ''circular link'') (appProps None) workingState)
       = [(''Layout Error'', ''circular link'')]"
  using C7_layout_failure_keeps_graph [of "appProps None" "throwing ''circular link''"
      "''circular link''" workingState]
  by (simp add: appProps_def throwing_def processYearData_def standardNodes_def
      workingState_def Let_def)

subsection \<open>What every reachable state of the application satisfies\<close>

lemma nid_applySavedNode [simp]: "nid (applySavedNode sl n) = nid n"
  by (simp add: applySavedNode_def split: SavedRead.split)

lemma nid_defaultLayoutNode [simp]: "nid (defaultLayoutNode w h n) = nid n"
  by (simp add: defaultLayoutNode_def Let_def)

lemma nodes_processYearData [simp]: "nodes (processYearData row) = standardNodes"
  by (simp add: processYearData_def Let_def)

lemma standardNodes_distinct: "distinct (map nid standardNodes)"
  by (simp add: standardNodes_def)

lemma standardNodes_nonempty: "standardNodes \<noteq> []"
  by (simp add: standardNodes_def)

lemma initialLayout_built:
  assumes "keepsNodes sankeyGenerator" and "data props = processYearData row"
    and "\<forall>g. graph st = Some g \<longrightarrow> map nid (nodes g) = map nid standardNodes"
    and "graph (initialLayout sankeyGenerator props st) = Some g'"
  shows "map nid (nodes g') = map nid standardNodes"
proof (cases "sankeyGenerator (sankeyConfig props) (data props)")
  case (Inl e)
  then have "graph (initialLayout sankeyGenerator props st) = graph st"
    using assms(2) by (simp add: initialLayout_def standardNodes_nonempty)
  then show ?thesis using assms(3,4) by simp
next
  case (Inr generated)
  then have ids: "map nid (nodes generated) = map nid standardNodes"
    using assms(1,2) by (auto simp add: keepsNodes_def)
  have "g' = forEachNode (applySavedNode (the (savedLayout props))) generated
      \<or> g' = forEachNode (defaultLayoutNode (canvasWidth props) (canvasHeight props)) generated"
    using assms(2,4) Inr
    by (cases "savedLayout props") (auto simp add: initialLayout_def standardNodes_nonempty)
  then show ?thesis using ids by (auto simp add: nodes_forEachNode comp_def)
qed

lemma reachable_invariant:
  assumes "keepsNodes sankeyGenerator" and "reachable sankeyGenerator s"
  shows "(\<forall>g. graph (diagram s) = Some g \<longrightarrow> map nid (nodes g) = map nid standardNodes)
    \<and> (\<forall>sl n. appSavedLayout s = Some sl \<longrightarrow> n \<in> set standardNodes \<longrightarrow>
          (\<exists>e. holdsEntry (savedNodes sl) (nid n) e))"
  using assms(2)
proof (induction rule: reachable.induct)
  case start
  then show ?case by (simp add: initialApp_def emptyState_def)
next
  case (rebuild s d row st w h)
  show ?case
  proof (cases "d = emptyData")
    case True
    then show ?thesis using rebuild.IH by (simp add: initialLayout_def emptyData_def)
  next
    case False
    then have d: "d = processYearData row" using rebuild.hyps(2) by simp
    have "map nid (nodes g') = map nid standardNodes"
      if "graph (initialLayout sankeyGenerator
            \<lparr>data = d, settings = st, savedLayout = appSavedLayout s,
             canvasWidth = w, canvasHeight = h\<rparr> (diagram s)) = Some g'" for g'
      using assms(1) _ _ that
    proof (rule initialLayout_built)
      show "data \<lparr>data = d, settings = st, savedLayout = appSavedLayout s,
             canvasWidth = w, canvasHeight = h\<rparr> = processYearData row"
        by (simp add: d)
      show "\<forall>g. graph (diagram s) = Some g \<longrightarrow> map nid (nodes g) = map nid standardNodes"
        using rebuild.IH by simp
    qed
    then show ?thesis using rebuild.IH by simp
  qed
next
  case (save s layout)
  then obtain g where g: "graph (diagram s) = Some g"
    and l: "savedNodes layout = fold saveNode (nodes g) emptyTable"
    by (auto simp add: handleSaveClick_def split: option.splits)
  have ids: "map nid (nodes g) = map nid standardNodes" using save.IH g by simp
  have "\<exists>e. holdsEntry (savedNodes layout) (nid n) e" if "n \<in> set standardNodes" for n
  proof -
    have "nid n \<in> set (map nid (nodes g))" using that ids by simp
    then obtain m where m: "m \<in> set (nodes g)" "nid m = nid n" by auto
    have "distinct (map nid (nodes g))" using ids standardNodes_distinct by simp
    then have "holdsEntry (fold saveNode (nodes g) emptyTable) (nid m) (snapshotNode m)"
      using m(1) by (rule fold_saveNode_distinct)
    then show ?thesis using m(2) l by auto
  qed
  then show ?case using save.IH by simp
next
  case (edit s g g')
  then show ?case by simp
next
  case (offsets s offs)
  then show ?case by simp
next
  case (remount s)
  then show ?case by (simp add: emptyState_def)
qed

lemma keepsNodes_stackGenerator: "keepsNodes stackGenerator"
proof -
  have "map nid (map (stackNode cfg) (enumerate 0 ns)) = map nid ns" for cfg ns
  proof -
    have "map nid (map (stackNode cfg) (enumerate 0 ns)) = map (nid \<circ> snd) (enumerate 0 ns)"
      by (simp add: stackNode_def comp_def)
    also have "\<dots> = map nid (map snd (enumerate 0 ns))" by (simp only: map_map)
    also have "map snd (enumerate 0 ns) = ns" by (rule map_snd_enumerate)
    finally show ?thesis .
  qed
  then show ?thesis
    by (auto simp add: keepsNodes_def stackGenerator_def stackGraph_def Let_def split: if_splits)
qed

text \<open>
  C3. In every state the application reaches, with a generator that keeps the nodes:
  after the generator has run on the graph built from a row, every node for which no
  saved entry exists is the result of the default layout, which puts each of the ten
  domain nodes at its reference coordinate (export bar along the top, loss bar along the
  bottom, eol at x = 1050 from mid-height down, the process chain at x = 50, 250, 450,
  650, 900 around mid-height). A saved layout, once it exists, holds an entry for every
  one of the ten nodes, so no node is then without an entry.
\<close>

theorem C3_default_layout_without_entry:
  assumes "keepsNodes sankeyGenerator" and "reachable sankeyGenerator s"
    and "data props = processYearData row" and "savedLayout props = appSavedLayout s"
    and "sankeyGenerator (sankeyConfig props) (data props) = Inr generated"
    and "k < length (nodes generated)"
    and "noSavedEntry (savedLayout props) (nodes generated ! k)"
  shows "(\<exists>g'. graph (initialLayout sankeyGenerator props (diagram s)) = Some g'
        \<and> nodes g' ! k =
            defaultLayoutNode (canvasWidth props) (canvasHeight props) (nodes generated ! k))
     \<and> nid (nodes generated ! k) \<in> set (map nid standardNodes)
     \<and> (\<forall>n w h. let nw = x1 n - x0 n; nh = y1 n - y0 n; r = rect (defaultLayoutNode w h n) in
         (nid n = ''export'' \<longrightarrow> r = (w / 2, w - 100, 20, 40)) \<and>
         (nid n = ''loss'' \<longrightarrow> r = (100, w - 100, h - 40, h - 20)) \<and>
         (nid n = ''eol'' \<longrightarrow> r = (1050, 1050 + nw, h / 2, h / 2 + nh)) \<and>
         (nid n = ''ore'' \<longrightarrow> r = (50, 50 + nw, h / 2 - nh / 2, h / 2 + nh / 2)) \<and>
         (nid n = ''concentrate'' \<longrightarrow> r = (250, 250 + nw, h / 2 - nh / 2, h / 2 + nh / 2)) \<and>
         (nid n = ''metal'' \<longrightarrow> r = (450, 450 + nw, h / 2 - nh / 2, h / 2 + nh / 2)) \<and>
         (nid n = ''magnet'' \<longrightarrow>
            r = (650, 650 + nw, h / 2 - nh / 2 - 50, h / 2 + nh / 2 - 50)) \<and>
         (nid n = ''other_semi'' \<longrightarrow>
            r = (650, 650 + nw, h / 2 - nh / 2 + 80, h / 2 + nh / 2 + 80)) \<and>
         (nid n = ''wind_turbine'' \<longrightarrow>
            r = (900, 900 + nw, h / 2 - nh / 2 - 50, h / 2 + nh / 2 - 50)) \<and>
         (nid n = ''other_final'' \<longrightarrow>
            r = (900, 900 + nw, h / 2 - nh / 2 + 50, h / 2 + nh / 2 + 50)))"
proof (intro conjI)
  have ids: "map nid (nodes generated) = map nid standardNodes"
    using assms(1,3,5) by (auto simp add: keepsNodes_def)
  then have len: "length (nodes generated) = length standardNodes"
    by (rule map_eq_imp_length_eq)
  have "nid (nodes generated ! k) = nid (standardNodes ! k)"
    using ids assms(6) len by (metis nth_map)
  then obtain n where n: "n \<in> set standardNodes" "nid n = nid (nodes generated ! k)"
    using assms(6) len by (metis nth_mem)
  then show "nid (nodes generated ! k) \<in> set (map nid standardNodes)" by force
  have none: "appSavedLayout s = None"
  proof (cases "appSavedLayout s")
    case None
    then show ?thesis .
  next
    case (Some sl)
    then obtain e where "holdsEntry (savedNodes sl) (nid n) e"
      using reachable_invariant [OF assms(1,2)] n(1) by blast
    then have "readNodeTable (savedNodes sl) (nid (nodes generated ! k)) = Entry e"
      using n(2) by (simp add: read_holdsEntry)
    then have "\<not> noSavedEntry (savedLayout props) (nodes generated ! k)"
      using Some assms(4) by (simp add: noSavedEntry_def)
    then show ?thesis using assms(7) by simp
  qed
  show "\<exists>g'. graph (initialLayout sankeyGenerator props (diagram s)) = Some g'
        \<and> nodes g' ! k =
            defaultLayoutNode (canvasWidth props) (canvasHeight props) (nodes generated ! k)"
    using assms(3,4,5,6) none
    by (simp add: initialLayout_def standardNodes_nonempty nodes_forEachNode)
  show "\<forall>n w h. let nw = x1 n - x0 n; nh = y1 n - y0 n; r = rect (defaultLayoutNode w h n) in
         (nid n = ''export'' \<longrightarrow> r = (w / 2, w - 100, 20, 40)) \<and>
         (nid n = ''loss'' \<longrightarrow> r = (100, w - 100, h - 40, h - 20)) \<and>
         (nid n = ''eol'' \<longrightarrow> r = (1050, 1050 + nw, h / 2, h / 2 + nh)) \<and>
         (nid n = ''ore'' \<longrightarrow> r = (50, 50 + nw, h / 2 - nh / 2, h / 2 + nh / 2)) \<and>
         (nid n = ''concentrate'' \<longrightarrow> r = (250, 250 + nw, h / 2 - nh / 2, h / 2 + nh / 2)) \<and>
         (nid n = ''metal'' \<longrightarrow> r = (450, 450 + nw, h / 2 - nh / 2, h / 2 + nh / 2)) \<and>
         (nid n = ''magnet'' \<longrightarrow>
            r = (650, 650 + nw, h / 2 - nh / 2 - 50, h / 2 + nh / 2 - 50)) \<and>
         (nid n = ''other_semi'' \<longrightarrow>
            r = (650, 650 + nw, h / 2 - nh / 2 + 80, h / 2 + nh / 2 + 80)) \<and>
         (nid n = ''wind_turbine'' \<longrightarrow>
            r = (900, 900 + nw, h / 2 - nh / 2 - 50, h / 2 + nh / 2 - 50)) \<and>
         (nid n = ''other_final'' \<longrightarrow>
            r = (900, 900 + nw, h / 2 - nh / 2 + 50, h / 2 + nh / 2 + 50))"
    by (simp add: Let_def rect_def defaultLayoutNode_def)
qed

subsection \<open>The layout on the concrete inputs\<close>

lemma first_layout_props:
  "data (appProps None) = processYearData row_2020"
  "savedLayout (appProps None) = appSavedLayout initialApp"
  by (simp_all add: appProps_def initialApp_def)

lemma first_layout_facts:
  "stackGenerator (sankeyConfig (appProps None)) (data (appProps None)) =
     Inr (stackGraph (sankeyConfig (appProps None)) (processYearData row_2020))"
  "0 < length (nodes (stackGraph (sankeyConfig (appProps None)) (processYearData row_2020)))"
  "noSavedEntry (savedLayout (appProps None))
     (nodes (stackGraph (sankeyConfig (appProps None)) (processYearData row_2020)) ! 0)"
  "rect (nodes (stackGraph (sankeyConfig (appProps None)) (processYearData row_2020)) ! 0) =
     (1, 26, 44.5, 755.5)"
  "rect (defaultLayoutNode (canvasWidth (appProps None)) (canvasHeight (appProps None))
     (nodes (stackGraph (sankeyConfig (appProps None)) (processYearData row_2020)) ! 0)) =
     (50, 75, 44.5, 755.5)"
  by code_simp+

theorem C3_default_layout_without_entry_witness:
  "keepsNodes stackGenerator
   \<and> reachable stackGenerator initialApp
   \<and> noSavedEntry (savedLayout (appProps None))
       (nodes (stackGraph (sankeyConfig (appProps None)) (processYearData row_2020)) ! 0)
   \<and> rect (nodes (stackGraph (sankeyConfig (appProps None)) (processYearData row_2020)) ! 0) =
       (1, 26, 44.5, 755.5)
   \<and> (\<exists>g'. graph (initialLayout stackGenerator (appProps None) (diagram initialApp)) = Some g'
        \<and> rect (nodes g' ! 0) = (50, 75, 44.5, 755.5))"
proof -
  have "\<exists>g'. graph (initialLayout stackGenerator (appProps None) (diagram initialApp)) = Some g'
      \<and> nodes g' ! 0 =
          defaultLayoutNode (canvasWidth (appProps None)) (canvasHeight (appProps None))
            (nodes (stackGraph (sankeyConfig (appProps None)) (processYearData row_2020)) ! 0)"
    using C3_default_layout_without_entry [OF keepsNodes_stackGenerator reachable.start
        first_layout_props first_layout_facts(1,2,3)]
    by blast
  then have "\<exists>g'. graph (initialLayout stackGenerator (appProps None) (diagram initialApp)) = Some g'
      \<and> rect (nodes g' ! 0) = (50, 75, 44.5, 755.5)"
    using first_layout_facts(5) by auto
  then show ?thesis
    using keepsNodes_stackGenerator reachable.start first_layout_facts(3,4) by blast
qed

lemma second_layout_props:
  "savedLayout (nextProps sl) = sl"
  "nodes (data (nextProps sl)) \<noteq> []"
  "sankeyConfig (nextProps sl) = sankeyConfig (nextProps None)"
  "data (nextProps sl) = processYearData row_2021"
  by (simp_all add: nextProps_def sankeyConfig_def standardNodes_nonempty)

lemma second_layout_facts:
  "graph (diagram laidOutApp) = Some laidOutGraph"
  "distinct (map nid (nodes laidOutGraph))"
  "stackGenerator (sankeyConfig (nextProps None)) (processYearData row_2021) =
     Inr (stackGraph (sankeyConfig (nextProps None)) (processYearData row_2021))"
  "map nid (nodes (stackGraph (sankeyConfig (nextProps None)) (processYearData row_2021))) =
     map nid (nodes laidOutGraph)"
  "map rect (nodes (stackGraph (sankeyConfig (nextProps None)) (processYearData row_2021))) =
     replicate 10 (1, 26, 44.5, 755.5)"
  "map rect (nodes laidOutGraph) =
     [(50, 75, 44.5, 755.5), (250, 275, 44.5, 755.5), (450, 475, 44.5, 755.5),
      (650, 675, - 5.5, 705.5), (650, 675, 124.5, 835.5), (900, 925, - 5.5, 705.5),
      (900, 925, 94.5, 805.5), (100, 1100, 760, 780), (600, 1100, 20, 40),
      (1050, 1075, 400, 1111)]"
  "map rotated (nodes laidOutGraph) =
     [False, False, False, False, False, False, False, True, True, False]"
  by code_simp+

theorem C6_save_apply_roundtrip_witness:
  "graph (diagram laidOutApp) = Some laidOutGraph
   \<and> distinct (map nid (nodes laidOutGraph))
   \<and> map rect (nodes (stackGraph (sankeyConfig (nextProps None)) (processYearData row_2021))) =
       replicate 10 (1, 26, 44.5, 755.5)
   \<and> (\<exists>g'. graph (initialLayout stackGenerator
                   (nextProps (handleSaveClick (diagram laidOutApp))) (diagram laidOutApp))
             = Some g'
        \<and> map rect (nodes g') =
            [(50, 75, 44.5, 755.5), (250, 275, 44.5, 755.5), (450, 475, 44.5, 755.5),
             (650, 675, - 5.5, 705.5), (650, 675, 124.5, 835.5), (900, 925, - 5.5, 705.5),
             (900, 925, 94.5, 805.5), (100, 1100, 760, 780), (600, 1100, 20, 40),
             (1050, 1075, 400, 1111)]
        \<and> map rotated (nodes g') =
            [False, False, False, False, False, False, False, True, True, False])"
proof -
  let ?P = "nextProps (handleSaveClick (diagram laidOutApp))"
  let ?G = "stackGraph (sankeyConfig (nextProps None)) (processYearData row_2021)"
  have h3: "savedLayout ?P = handleSaveClick (diagram laidOutApp)"
    by (rule second_layout_props)
  have h4: "nodes (data ?P) \<noteq> []"
    by (rule second_layout_props)
  have c: "sankeyConfig ?P = sankeyConfig (nextProps None)"
    and d: "data ?P = processYearData row_2021"
    by (rule second_layout_props)+
  have h5: "stackGenerator (sankeyConfig ?P) (data ?P) = Inr ?G"
    unfolding c d by (rule second_layout_facts)
  obtain g' where g': "graph (initialLayout stackGenerator ?P (diagram laidOutApp)) = Some g'"
      "map rect (nodes g') = map rect (nodes laidOutGraph)"
      "map rotated (nodes g') = map rotated (nodes laidOutGraph)"
    using C6_save_apply_roundtrip [where st = "diagram laidOutApp" and g = laidOutGraph
        and props = ?P and sankeyGenerator = stackGenerator and generated = ?G
        and st' = "diagram laidOutApp", OF second_layout_facts(1,2) h3 h4 h5
        second_layout_facts(4)]
    by (elim exE conjE)
  have "map rect (nodes g') =
      [(50, 75, 44.5, 755.5), (250, 275, 44.5, 755.5), (450, 475, 44.5, 755.5),
       (650, 675, - 5.5, 705.5), (650, 675, 124.5, 835.5), (900, 925, - 5.5, 705.5),
       (900, 925, 94.5, 805.5), (100, 1100, 760, 780), (600, 1100, 20, 40),
       (1050, 1075, 400, 1111)]"
    "map rotated (nodes g') =
      [False, False, False, False, False, False, False, True, True, False]"
    unfolding g'(2,3) by (rule second_layout_facts)+
  with g'(1) have "\<exists>g'. graph (initialLayout stackGenerator ?P (diagram laidOutApp)) = Some g'
        \<and> map rect (nodes g') =
            [(50, 75, 44.5, 755.5), (250, 275, 44.5, 755.5), (450, 475, 44.5, 755.5),
             (650, 675, - 5.5, 705.5), (650, 675, 124.5, 835.5), (900, 925, - 5.5, 705.5),
             (900, 925, 94.5, 805.5), (100, 1100, 760, 780), (600, 1100, 20, 40),
             (1050, 1075, 400, 1111)]
        \<and> map rotated (nodes g') =
            [False, False, False, False, False, False, False, True, True, False]"
    by (intro exI conjI)
  with second_layout_facts(1,2,5) show ?thesis by (intro conjI)
qed

section \<open>Properties of the routing\<close>

subsection \<open>The routing reads the core of a link only\<close>

lemma core_idem [simp]: "core (core l) = core l"
  by (simp add: core_def)

lemma core_fields [simp]:
  "source (core l) = source l" "target (core l) = target l" "width (core l) = width l"
  by (simp_all add: core_def)

lemma getLinkKey_core [simp]: "getLinkKey (core l) = getLinkKey l"
  by (simp add: getLinkKey_def)

lemma linkWidth_core [simp]: "linkWidth (core l) = linkWidth l"
  by (simp add: linkWidth_def)

lemma sourceSideOf_core [simp]: "sourceSideOf offs (core l) = sourceSideOf offs l"
  by (simp add: sourceSideOf_def)

lemma targetSideOf_core [simp]: "targetSideOf offs (core l) = targetSideOf offs l"
  by (simp add: targetSideOf_def)

lemma endNode_core [simp]: "endNode b (core l) = endNode b l"
  by (simp add: endNode_def)

lemma endSideOf_core [simp]: "endSideOf offs b (core l) = endSideOf offs b l"
  by (simp add: endSideOf_def)

lemma homeBucket_core [simp]: "homeBucket offs d (core l) = homeBucket offs d l"
  by (simp add: homeBucket_def)

lemma sortKeyOf_core [simp]: "sortKeyOf b (core l) = sortKeyOf b l"
  by (simp add: sortKeyOf_def)

lemma manualPosOf_core [simp]: "manualPosOf offs b (core l) = manualPosOf offs b l"
  by (simp add: manualPosOf_def)

lemma posOnEdgeOf_core [simp]:
  "posOnEdgeOf offs b e c (core l) = posOnEdgeOf offs b e c l"
  by (simp add: posOnEdgeOf_def)

lemma core_eq_reads:
  assumes "core l = core l'"
  shows "linkWidth l = linkWidth l'" "sortKeyOf b l = sortKeyOf b l'"
    "homeBucket offs d l = homeBucket offs d l'"
    "posOnEdgeOf offs b e c l = posOnEdgeOf offs b e c l'"
    "manualPosOf offs b l = manualPosOf offs b l'"
    "source l = source l'" "target l = target l'"
proof -
  have "linkWidth (core l) = linkWidth (core l')" using assms by simp
  then show "linkWidth l = linkWidth l'" by simp
  have "sortKeyOf b (core l) = sortKeyOf b (core l')" using assms by simp
  then show "sortKeyOf b l = sortKeyOf b l'" by simp
  have "homeBucket offs d (core l) = homeBucket offs d (core l')" using assms by simp
  then show "homeBucket offs d l = homeBucket offs d l'" by simp
  have "posOnEdgeOf offs b e c (core l) = posOnEdgeOf offs b e c (core l')"
    using assms by simp
  then show "posOnEdgeOf offs b e c l = posOnEdgeOf offs b e c l'" by simp
  have "manualPosOf offs b (core l) = manualPosOf offs b (core l')" using assms by simp
  then show "manualPosOf offs b l = manualPosOf offs b l'" by simp
  have "source (core l) = source (core l')" using assms by simp
  then show "source l = source l'" by simp
  have "target (core l) = target (core l')" using assms by simp
  then show "target l = target l'" by simp
qed

lemma core_rebuild:
  "core l' = core l \<Longrightarrow>
   l' = (core l)\<lparr>sourceCoords := sourceCoords l', targetCoords := targetCoords l'\<rparr>"
  by (cases l, cases l') (simp add: core_def)

lemma core_placeLink [simp]: "core (placeLink offs node b e c l) = core l"
  by (simp add: placeLink_def core_def Let_def)

lemma map_core_update:
  "core l' = core (ls ! k) \<Longrightarrow> map core (ls[k := l']) = map core ls"
  by (simp add: map_update) (metis list_update_id map_update)

subsection \<open>The loop of getCoords\<close>

lemma length_placeLinks [simp]: "length (placeLinks offs node b e ks c ls) = length ls"
  by (induction ks arbitrary: c ls) simp_all

lemma core_placeLinks [simp]: "map core (placeLinks offs node b e ks c ls) = map core ls"
  by (induction ks arbitrary: c ls) (simp_all add: map_core_update)

lemma nth_placeLinks:
  assumes "distinct ks" and "\<forall>k\<in>set ks. k < length ls"
  shows "placeLinks offs node b e ks c ls ! j =
    (if j \<in> set ks
     then placeLink offs node b e
            (c + (\<Sum>k\<leftarrow>takeWhile (\<lambda>k. k \<noteq> j) ks. linkWidth (ls ! k))) (ls ! j)
     else ls ! j)"
  using assms
proof (induction ks arbitrary: c ls)
  case Nil
  then show ?case by simp
next
  case (Cons k ks)
  let ?ls = "ls[k := placeLink offs node b e c (ls ! k)]"
  have k: "k < length ls" "k \<notin> set ks" "distinct ks" "\<forall>m\<in>set ks. m < length ?ls"
    using Cons.prems by auto
  have lw: "linkWidth (?ls ! m) = linkWidth (ls ! m)" for m
    using k(1) by (cases "m = k") (simp_all add: core_eq_reads(1) [of "placeLink offs node b e c (ls ! k)" "ls ! k"])
  have IH: "placeLinks offs node b e ks (c + linkWidth (ls ! k)) ?ls ! j =
    (if j \<in> set ks
     then placeLink offs node b e
            (c + linkWidth (ls ! k) + (\<Sum>m\<leftarrow>takeWhile (\<lambda>m. m \<noteq> j) ks. linkWidth (ls ! m)))
            (?ls ! j)
     else ?ls ! j)"
    using Cons.IH [OF k(3) k(4), of "c + linkWidth (ls ! k)"] by (simp add: lw)
  show ?case
  proof (cases "j = k")
    case True
    then show ?thesis using IH k by simp
  next
    case False
    then show ?thesis using IH by (simp add: add.assoc)
  qed
qed

lemma insort_key_cong:
  "f x = g x \<Longrightarrow> \<forall>y\<in>set ys. f y = g y \<Longrightarrow> insort_key f x ys = insort_key g x ys"
  by (induction ys) auto

lemma sort_key_cong:
  "\<forall>x\<in>set xs. f x = g x \<Longrightarrow> sort_key f xs = sort_key g xs"
  by (induction xs) (auto intro: insort_key_cong)

lemma core_getCoords [simp]: "map core (getCoords offs node bucket b ls) = map core ls"
  by (simp add: getCoords_def Let_def)

lemma length_getCoords [simp]: "length (getCoords offs node bucket b ls) = length ls"
  by (simp add: getCoords_def Let_def)

lemma sortedBucket_cong:
  assumes "map core ls = map core cs" and "\<forall>k\<in>set bucket. k < length cs"
  shows "sortedBucket b ls bucket = sortedBucket b cs bucket"
  unfolding sortedBucket_def
proof (rule sort_key_cong, rule ballI)
  fix k assume "k \<in> set bucket"
  then have "k < length cs" using assms(2) by simp
  then have "core (ls ! k) = core (cs ! k)"
    using assms(1) by (metis length_map nth_map)
  then show "sortKeyOf b (ls ! k) = sortKeyOf b (cs ! k)" by (rule core_eq_reads)
qed

lemma nth_core_eq:
  "map core ls = map core cs \<Longrightarrow> k < length cs \<Longrightarrow> core (ls ! k) = core (cs ! k)"
  by (metis length_map nth_map)

lemma sum_widths_cong:
  assumes "map core ls = map core cs" and "\<forall>k\<in>set ks. k < length cs"
  shows "(\<Sum>k\<leftarrow>ks. linkWidth (ls ! k)) = (\<Sum>k\<leftarrow>ks. linkWidth (cs ! k))"
proof -
  have "map (\<lambda>k. linkWidth (ls ! k)) ks = map (\<lambda>k. linkWidth (cs ! k)) ks"
  proof (rule map_cong [OF refl])
    fix k assume "k \<in> set ks"
    then have "core (ls ! k) = core (cs ! k)" using assms by (intro nth_core_eq) auto
    then show "linkWidth (ls ! k) = linkWidth (cs ! k)" by (rule core_eq_reads)
  qed
  then show ?thesis by (rule arg_cong)
qed

lemma cursorOf_cong:
  assumes "map core ls = map core cs" and "\<forall>k\<in>set bucket. k < length cs"
  shows "cursorOf node b ls bucket j = cursorOf node b cs bucket j"
proof -
  have s: "sortedBucket b ls bucket = sortedBucket b cs bucket"
    using assms by (rule sortedBucket_cong)
  have in1: "\<forall>k\<in>set (sortedBucket b cs bucket). k < length cs"
    using assms(2) by (simp add: sortedBucket_def)
  have in2: "\<forall>k\<in>set (takeWhile (\<lambda>k. k \<noteq> j) (sortedBucket b cs bucket)). k < length cs"
    using in1 by (meson set_takeWhileD)
  show ?thesis
    unfolding cursorOf_def s
    by (simp add: sum_widths_cong [OF assms(1) in1] sum_widths_cong [OF assms(1) in2])
qed

lemma getCoords_nonempty:
  "bucket \<noteq> [] \<Longrightarrow>
   getCoords offs node bucket b ls =
     placeLinks offs node b (edgeLengthOf node b) (sortedBucket b ls bucket)
       (max 0 ((edgeLengthOf node b
                - (\<Sum>k\<leftarrow>sortedBucket b ls bucket. linkWidth (ls ! k))) / 2)) ls"
  by (simp add: getCoords_def sortedBucket_def Let_def)

lemma nth_getCoords:
  assumes "distinct bucket" and "\<forall>k\<in>set bucket. k < length ls"
  shows "getCoords offs node bucket b ls ! j =
    (if j \<in> set bucket
     then placeLink offs node b (edgeLengthOf node b) (cursorOf node b ls bucket j) (ls ! j)
     else ls ! j)"
proof (cases "bucket = []")
  case True
  then show ?thesis by (simp add: getCoords_def)
next
  case False
  have d: "distinct (sortedBucket b ls bucket)"
    and r: "\<forall>k\<in>set (sortedBucket b ls bucket). k < length ls"
    and s: "set (sortedBucket b ls bucket) = set bucket"
    using assms by (simp_all add: sortedBucket_def)
  show ?thesis
    unfolding getCoords_nonempty [OF False] nth_placeLinks [OF d r] s cursorOf_def ..
qed

subsection \<open>The first loop: sides and buckets\<close>

lemma pushBucket_apply:
  "pushBucket i b k nb i' b' = (if i' = i \<and> b' = b then nb i b @ [k] else nb i' b')"
  by (simp add: pushBucket_def)

lemma homeBucket_out:
  "homeBucket offs False l = (index (source l), (False, sourceSideOf offs l))"
  by (simp add: homeBucket_def endNode_def endSideOf_def startsWithIn_def)

lemma homeBucket_in:
  "homeBucket offs True l = (index (target l), (True, targetSideOf offs l))"
  by (simp add: homeBucket_def endNode_def endSideOf_def startsWithIn_def)

lemma fst_determineSides:
  "fst (determineSides offs k (nb, ls)) i b =
     nb i b @ (if homeBucket offs (fst b) (ls ! k) = (i, b) then [k] else [])"
  by (cases b, cases "fst b")
     (auto simp add: determineSides_def Let_def pushBucket_apply homeBucket_out homeBucket_in)

lemma snd_determineSides:
  "map core (snd (determineSides offs k (nb, ls))) = map core ls"
  by (simp add: determineSides_def Let_def map_core_update core_def)

lemma determineSides_fold:
  assumes "map core ls = map core cs" and "m \<le> length cs"
  shows "map core (snd (fold (determineSides offs) [0..<m] (nb0, ls))) = map core cs
    \<and> (\<forall>i b. fst (fold (determineSides offs) [0..<m] (nb0, ls)) i b =
          nb0 i b @ filter (\<lambda>k. homeBucket offs (fst b) (cs ! k) = (i, b)) [0..<m])"
  using assms(2)
proof (induction m)
  case 0
  then show ?case using assms(1) by simp
next
  case (Suc m)
  obtain nb ls1 where st: "fold (determineSides offs) [0..<m] (nb0, ls) = (nb, ls1)"
    by (cases "fold (determineSides offs) [0..<m] (nb0, ls)")
  have IH: "map core ls1 = map core cs"
    "\<And>i b. nb i b = nb0 i b @ filter (\<lambda>k. homeBucket offs (fst b) (cs ! k) = (i, b)) [0..<m]"
    using Suc st by (simp_all del: split_paired_All)
  have "m < length cs" using Suc.prems by simp
  with IH(1) have "core (ls1 ! m) = core (cs ! m)" by (rule nth_core_eq)
  then have hb: "homeBucket offs d (ls1 ! m) = homeBucket offs d (cs ! m)" for d
    by (rule core_eq_reads)
  have step: "fold (determineSides offs) [0..<Suc m] (nb0, ls) = determineSides offs m (nb, ls1)"
    using st by simp
  show ?case
    unfolding step
    by (simp add: snd_determineSides fst_determineSides IH hb del: split_paired_All)
qed

lemma nodeBucketsOf_eq:
  assumes "map core (links g) = map core cs"
  shows "nodeBucketsOf offs g = bucketOf offs cs"
proof (intro ext)
  fix i b
  have n: "length (links g) = length cs" using assms by (metis length_map)
  show "nodeBucketsOf offs g i b = bucketOf offs cs i b"
    using determineSides_fold [OF assms, of "length cs" offs "\<lambda>i b. []"]
    by (simp add: nodeBucketsOf_def bucketOf_def n del: split_paired_All)
qed

lemma bucketOf_props:
  "distinct (bucketOf offs cs i b)" "\<forall>k\<in>set (bucketOf offs cs i b). k < length cs"
  "j \<in> set (bucketOf offs cs i b) \<longleftrightarrow> j < length cs \<and> homeBucket offs (fst b) (cs ! j) = (i, b)"
  by (auto simp add: bucketOf_def)

subsection \<open>The second loop: coordinates\<close>

lemma routeNode_fold:
  "fold (routeNode offs ns nb) is ls =
   fold (\<lambda>p. getCoords offs (ns ! fst p) (nb (fst p) (snd p)) (snd p)) (List.product is bucketNames) ls"
proof (induction "is" arbitrary: ls)
  case Nil
  then show ?case by simp
next
  case (Cons i "is")
  have "fold (\<lambda>p. getCoords offs (ns ! fst p) (nb (fst p) (snd p)) (snd p))
          (map (Pair i) bucketNames) ls = routeNode offs ns nb i ls"
    by (simp add: routeNode_def fold_map comp_def)
  then show ?case using Cons by simp
qed

lemma fst_snd_homeBucket [simp]: "fst (snd (homeBucket offs d l)) = d"
  by (simp add: homeBucket_def)

lemma placeLink_in_bucket:
  assumes "core l = core c" and "homeBucket offs (fst b) c = (i, b)"
    and "cur = cursorOf (ns ! i) b cs (bucketOf offs cs i b) j" and "c = cs ! j"
  shows "endCoords (fst b, Top) (placeLink offs (ns ! i) b (edgeLengthOf (ns ! i) b) cur l) =
    Some (placedCoords offs ns cs (fst b) j)"
proof -
  have "posOnEdgeOf offs b (edgeLengthOf (ns ! i) b) cur l =
        posOnEdgeOf offs b (edgeLengthOf (ns ! i) b) cur c"
    and "linkWidth l = linkWidth c"
    using assms(1) by (rule core_eq_reads)+
  then show ?thesis
    using assms(2-4)
    by (simp add: placeLink_def endCoords_def startsWithIn_def Let_def placedCoords_def)
qed

lemma placeLink_other_end:
  "d \<noteq> fst b \<Longrightarrow> endCoords (d, s) (placeLink offs node b e cur l) = endCoords (d, s) l"
  by (simp add: placeLink_def endCoords_def startsWithIn_def Let_def)

lemma getCoords_fold:
  assumes "map core ls1 = map core cs"
  shows "map core (fold (\<lambda>p. getCoords offs (ns ! fst p) (bucketOf offs cs (fst p) (snd p)) (snd p))
            ps ls1) = map core cs
    \<and> (\<forall>d j. j < length cs \<longrightarrow>
          endCoords (d, Top)
            (fold (\<lambda>p. getCoords offs (ns ! fst p) (bucketOf offs cs (fst p) (snd p)) (snd p))
               ps ls1 ! j) =
          (if homeBucket offs d (cs ! j) \<in> set ps then Some (placedCoords offs ns cs d j)
           else endCoords (d, Top) (ls1 ! j)))"
proof (induction ps rule: rev_induct)
  case Nil
  then show ?case using assms by simp
next
  case (snoc p ps)
  define st where
    "st = fold (\<lambda>p. getCoords offs (ns ! fst p) (bucketOf offs cs (fst p) (snd p)) (snd p)) ps ls1"
  obtain i b where p: "p = (i, b)" by (cases p)
  have cst: "map core st = map core cs"
    and ends: "\<And>d j. j < length cs \<Longrightarrow> endCoords (d, Top) (st ! j) =
          (if homeBucket offs d (cs ! j) \<in> set ps then Some (placedCoords offs ns cs d j)
           else endCoords (d, Top) (ls1 ! j))"
    using snoc by (simp_all add: st_def del: split_paired_All)
  have len: "length st = length cs" using cst by (metis length_map)
  have step: "fold (\<lambda>p. getCoords offs (ns ! fst p) (bucketOf offs cs (fst p) (snd p)) (snd p))
      (ps @ [p]) ls1 = getCoords offs (ns ! i) (bucketOf offs cs i b) b st"
    by (simp add: st_def p)
  have nth: "getCoords offs (ns ! i) (bucketOf offs cs i b) b st ! j =
    (if j \<in> set (bucketOf offs cs i b)
     then placeLink offs (ns ! i) b (edgeLengthOf (ns ! i) b)
            (cursorOf (ns ! i) b cs (bucketOf offs cs i b) j) (st ! j)
     else st ! j)" for j
    using nth_getCoords [of "bucketOf offs cs i b" st offs "ns ! i" b j]
      cursorOf_cong [OF cst, of "bucketOf offs cs i b" "ns ! i" b j]
    by (simp add: bucketOf_props len)
  have "endCoords (d, Top) (getCoords offs (ns ! i) (bucketOf offs cs i b) b st ! j) =
          (if homeBucket offs d (cs ! j) \<in> set (ps @ [p]) then Some (placedCoords offs ns cs d j)
           else endCoords (d, Top) (ls1 ! j))" if j: "j < length cs" for d j
  proof (cases "j \<in> set (bucketOf offs cs i b)")
    case True
    then have hb: "homeBucket offs (fst b) (cs ! j) = (i, b)"
      by (simp add: bucketOf_props)
    have cj: "core (st ! j) = core (cs ! j)" using cst j by (rule nth_core_eq)
    show ?thesis
    proof (cases "d = fst b")
      case d: True
      show ?thesis
        using True placeLink_in_bucket [OF cj hb refl refl, of ns] hb
        by (simp add: nth d p)
    next
      case d: False
      then have "homeBucket offs d (cs ! j) \<noteq> (i, b)"
        by (metis fst_snd_homeBucket snd_conv)
      then show ?thesis
        using True d by (simp add: nth placeLink_other_end ends [OF j] p)
    qed
  next
    case False
    then have "d = fst b \<Longrightarrow> homeBucket offs d (cs ! j) \<noteq> (i, b)"
      using j by (simp add: bucketOf_props)
    moreover have "d \<noteq> fst b \<Longrightarrow> homeBucket offs d (cs ! j) \<noteq> (i, b)"
      by (metis fst_snd_homeBucket snd_conv)
    ultimately have "homeBucket offs d (cs ! j) \<noteq> (i, b)" by blast
    then show ?thesis using False by (simp add: nth ends [OF j] p)
  qed
  then show ?case unfolding step using cst by (simp del: split_paired_All)
qed

subsection \<open>The routed graph\<close>

lemma bucketNames_all: "(d, s) \<in> set bucketNames"
  by (cases d; cases s) (simp_all add: bucketNames_def)

lemma endsInRange_core:
  assumes "map core (links g) = map core cs" and "endsInRange g" and "j < length cs"
  shows "fst (homeBucket offs d (cs ! j)) < length (nodes g)"
proof -
  have n: "length (links g) = length cs" using assms(1) by (metis length_map)
  have "core (links g ! j) = core (cs ! j)" using assms(1,3) by (rule nth_core_eq)
  then have "source (links g ! j) = source (cs ! j)" "target (links g ! j) = target (cs ! j)"
    by (rule core_eq_reads)+
  moreover have "index (source (links g ! j)) < length (nodes g)"
    "index (target (links g ! j)) < length (nodes g)"
    using assms(2,3) n by (simp_all add: endsInRange_def list_all_length)
  ultimately show ?thesis
    by (cases d) (simp_all add: homeBucket_out homeBucket_in)
qed

lemma route_spec:
  assumes "endsInRange g" and "map core (links g) = map core cs"
  shows "route offs g = \<lparr>nodes = nodes g, links = routedLinks offs (nodes g) cs\<rparr>"
proof -
  define ls1 where
    "ls1 = snd (fold (determineSides offs) [0..<length (links g)] (\<lambda>i b. [], links g))"
  define ls2 where
    "ls2 = fold (\<lambda>p. getCoords offs (nodes g ! fst p) (bucketOf offs cs (fst p) (snd p)) (snd p))
             (List.product [0..<length (nodes g)] bucketNames) ls1"
  have n: "length (links g) = length cs" using assms(2) by (metis length_map)
  have c1: "map core ls1 = map core cs"
    using determineSides_fold [OF assms(2), of "length cs" offs "\<lambda>i b. []"]
    by (simp add: ls1_def n del: split_paired_All)
  have "fst (fold (determineSides offs) [0..<length (links g)] (\<lambda>i b. [], links g)) =
      bucketOf offs cs"
    using nodeBucketsOf_eq [OF assms(2), of offs] unfolding nodeBucketsOf_def .
  then have r: "route offs g = \<lparr>nodes = nodes g, links = ls2\<rparr>"
    unfolding route_def Let_def routeNode_fold ls2_def ls1_def by simp
  have c2: "map core ls2 = map core cs"
    and ends: "\<And>d j. j < length cs \<Longrightarrow> endCoords (d, Top) (ls2 ! j) =
      (if homeBucket offs d (cs ! j) \<in> set (List.product [0..<length (nodes g)] bucketNames)
       then Some (placedCoords offs (nodes g) cs d j) else endCoords (d, Top) (ls1 ! j))"
    using getCoords_fold [OF c1, of offs "nodes g" "List.product [0..<length (nodes g)] bucketNames"]
    by (simp_all add: ls2_def del: split_paired_All)
  have home: "homeBucket offs d (cs ! j) \<in> set (List.product [0..<length (nodes g)] bucketNames)"
    if "j < length cs" for d j
  proof -
    obtain i b where hb: "homeBucket offs d (cs ! j) = (i, b)"
      by (cases "homeBucket offs d (cs ! j)")
    have "i < length (nodes g)"
      using endsInRange_core [OF assms(2,1) that, of offs d] hb by simp
    moreover have "b \<in> set bucketNames"
      using bucketNames_all [of "fst b" "snd b"] by simp
    ultimately show ?thesis by (simp add: hb)
  qed
  have "ls2 = routedLinks offs (nodes g) cs"
  proof (rule nth_equalityI)
    have "length ls2 = length cs" using c2 by (rule map_eq_imp_length_eq)
    then show "length ls2 = length (routedLinks offs (nodes g) cs)"
      by (simp add: routedLinks_def)
  next
    fix j assume "j < length ls2"
    moreover have "length ls2 = length cs" using c2 by (rule map_eq_imp_length_eq)
    ultimately have j: "j < length cs" by simp
    have "core (ls2 ! j) = core (cs ! j)" using c2 j by (rule nth_core_eq)
    then have "ls2 ! j = (core (cs ! j))\<lparr>sourceCoords := sourceCoords (ls2 ! j),
        targetCoords := targetCoords (ls2 ! j)\<rparr>"
      by (rule core_rebuild)
    moreover have "sourceCoords (ls2 ! j) = Some (placedCoords offs (nodes g) cs False j)"
      using ends [OF j, of False] home [OF j, of False]
      by (simp add: endCoords_def startsWithIn_def)
    moreover have "targetCoords (ls2 ! j) = Some (placedCoords offs (nodes g) cs True j)"
      using ends [OF j, of True] home [OF j, of True]
      by (simp add: endCoords_def startsWithIn_def)
    ultimately show "ls2 ! j = routedLinks offs (nodes g) cs ! j"
      using j by (simp add: routedLinks_def core_def)
  qed
  then show ?thesis using r by simp
qed

lemma core_routedLinks: "map core (routedLinks offs ns cs) = map core cs"
  by (rule nth_equalityI) (simp_all add: routedLinks_def core_def)

lemma endsInRange_cong:
  assumes "nodes g' = nodes g" and "map core (links g') = map core (links g)"
  shows "endsInRange g' = endsInRange g"
proof -
  have n: "length (links g') = length (links g)"
    using assms(2) by (rule map_eq_imp_length_eq)
  have "source (links g' ! k) = source (links g ! k) \<and> target (links g' ! k) = target (links g ! k)"
    if "k < length (links g)" for k
  proof -
    have "core (links g' ! k) = core (links g ! k)" using assms(2) that by (rule nth_core_eq)
    then show ?thesis using core_eq_reads(6,7) by blast
  qed
  then show ?thesis
    unfolding endsInRange_def list_all_length n assms(1) by simp
qed

lemma startOnEdge_routed:
  assumes "endsInRange g" and "j \<in> set (nodeBucketsOf offs g i b)"
  shows "startOnEdge (nodes g ! i) b (links (route offs g) ! j) =
    Some (posOnEdgeOf offs b (edgeLengthOf (nodes g ! i) b)
            (cursorOf (nodes g ! i) b (links g) (nodeBucketsOf offs g i b) j) (links g ! j))"
proof -
  have nb: "nodeBucketsOf offs g = bucketOf offs (links g)"
    by (rule nodeBucketsOf_eq) simp
  have j: "j < length (links g)" and hb: "homeBucket offs (fst b) (links g ! j) = (i, b)"
    using assms(2) by (simp_all add: nb bucketOf_props)
  have r: "links (route offs g) ! j =
      (links g ! j)\<lparr>sourceCoords := Some (placedCoords offs (nodes g) (links g) False j),
                    targetCoords := Some (placedCoords offs (nodes g) (links g) True j)\<rparr>"
    using route_spec [OF assms(1) refl, of offs] j by (simp add: routedLinks_def)
  have e: "endCoords b (links (route offs g) ! j) =
      Some (placedCoords offs (nodes g) (links g) (fst b) j)"
    by (simp add: r endCoords_def startsWithIn_def)
  have w: "linkWidth (links (route offs g) ! j) = linkWidth (links g ! j)"
    by (simp add: r linkWidth_def)
  have pc: "placedCoords offs (nodes g) (links g) (fst b) j =
      endpoint (nodes g ! i) b
        (posOnEdgeOf offs b (edgeLengthOf (nodes g ! i) b)
           (cursorOf (nodes g ! i) b (links g) (bucketOf offs (links g) i b) j) (links g ! j)
         + linkWidth (links g ! j) / 2)"
    by (simp add: placedCoords_def hb Let_def)
  show ?thesis
    unfolding nb
    by (cases "snd b") (simp_all add: startOnEdge_def e w pc endpoint_def isHorizontalEdge_def)
qed

subsection \<open>Sums of widths along the visiting order\<close>

lemma sum_list_insort_key:
  "(\<Sum>m\<leftarrow>insort_key f x xs. (w m :: real)) = w x + (\<Sum>m\<leftarrow>xs. w m)"
  by (induction xs) simp_all

lemma sum_list_sort_key: "(\<Sum>m\<leftarrow>sort_key f xs. (w m :: real)) = (\<Sum>m\<leftarrow>xs. w m)"
  by (induction xs) (simp_all add: sum_list_insort_key)

lemma prefix_sum_bound:
  assumes "j \<in> set S" and "\<forall>m\<in>set S. 0 \<le> (w m :: real)"
  shows "0 \<le> (\<Sum>m\<leftarrow>takeWhile (\<lambda>m. m \<noteq> j) S. w m)
    \<and> (\<Sum>m\<leftarrow>takeWhile (\<lambda>m. m \<noteq> j) S. w m) + w j \<le> (\<Sum>m\<leftarrow>S. w m)"
  using assms
proof (induction S)
  case Nil
  then show ?case by simp
next
  case (Cons x S)
  show ?case
  proof (cases "x = j")
    case True
    have "0 \<le> (\<Sum>m\<leftarrow>S. w m)" using Cons.prems(2) by (intro sum_list_nonneg) auto
    then show ?thesis using True by simp
  next
    case False
    then have "j \<in> set S" using Cons.prems(1) by simp
    moreover have "\<forall>m\<in>set S. 0 \<le> w m" "0 \<le> w x" using Cons.prems(2) by simp_all
    ultimately show ?thesis using Cons.IH False by simp
  qed
qed

lemma prefix_sum_order:
  assumes "j \<in> set S" and "k \<in> set S" and "j \<noteq> k" and "\<forall>m\<in>set S. 0 \<le> (w m :: real)"
  shows "(\<Sum>m\<leftarrow>takeWhile (\<lambda>m. m \<noteq> j) S. w m) + w j \<le> (\<Sum>m\<leftarrow>takeWhile (\<lambda>m. m \<noteq> k) S. w m)
    \<or> (\<Sum>m\<leftarrow>takeWhile (\<lambda>m. m \<noteq> k) S. w m) + w k \<le> (\<Sum>m\<leftarrow>takeWhile (\<lambda>m. m \<noteq> j) S. w m)"
  using assms
proof (induction S)
  case Nil
  then show ?case by simp
next
  case (Cons x S)
  have nn: "\<forall>m\<in>set S. 0 \<le> w m" using Cons.prems(4) by simp
  consider "x = j" | "x = k" | "x \<noteq> j" "x \<noteq> k" by blast
  then show ?case
  proof cases
    case 1
    then have "k \<in> set S" using Cons.prems by auto
    then have "0 \<le> (\<Sum>m\<leftarrow>takeWhile (\<lambda>m. m \<noteq> k) S. w m)"
      using prefix_sum_bound [OF _ nn] by blast
    then show ?thesis using 1 Cons.prems(3) by simp
  next
    case 2
    then have "j \<in> set S" using Cons.prems by auto
    then have "0 \<le> (\<Sum>m\<leftarrow>takeWhile (\<lambda>m. m \<noteq> j) S. w m)"
      using prefix_sum_bound [OF _ nn] by blast
    then show ?thesis using 2 Cons.prems(3) by simp
  next
    case 3
    then have "j \<in> set S" "k \<in> set S" using Cons.prems by auto
    then show ?thesis using Cons.IH [OF _ _ Cons.prems(3) nn] 3 by simp
  qed
qed

lemma routedGraph_cong:
  assumes "nodes g' = nodes g" and "map core (links g') = map core (links g)"
  shows "routedGraph offs (Some g') = routedGraph offs (Some g)"
proof (cases "endsInRange g")
  case True
  then have "endsInRange g'" using endsInRange_cong [OF assms] by simp
  then have "route offs g' = \<lparr>nodes = nodes g', links = routedLinks offs (nodes g') (links g)\<rparr>"
    using assms(2) by (rule route_spec)
  moreover have "route offs g = \<lparr>nodes = nodes g, links = routedLinks offs (nodes g) (links g)\<rparr>"
    using True refl by (rule route_spec)
  ultimately have "route offs g' = route offs g" using assms(1) by simp
  then show ?thesis
    using True \<open>endsInRange g'\<close> by (simp add: routedGraph_def)
next
  case False
  then have "\<not> endsInRange g'" using endsInRange_cong [OF assms] by simp
  then show ?thesis using False by (simp add: routedGraph_def)
qed

text \<open>
  C8. Routing is a function of the node geometry, of the links up to the attachment
  records an earlier invocation left on them, and of the link-offset table (it reads no
  settings): two graph states that agree on these are routed alike, and routing the
  graph that a first invocation returned returns that same graph again.
\<close>

theorem C8_routing_deterministic:
  "(nodes g' = nodes g \<and> map core (links g') = map core (links g) \<longrightarrow>
      routedGraph offs (Some g') = routedGraph offs (Some g))
   \<and> (\<forall>r. routedGraph offs (Some g) = Inr (Some r) \<longrightarrow>
        routedGraph offs (Some r) = Inr (Some r))"
proof (intro conjI allI impI)
  assume "nodes g' = nodes g \<and> map core (links g') = map core (links g)"
  then show "routedGraph offs (Some g') = routedGraph offs (Some g)"
    using routedGraph_cong by blast
next
  fix r assume r: "routedGraph offs (Some g) = Inr (Some r)"
  then have ok: "endsInRange g" and "r = route offs g"
    by (simp_all add: routedGraph_def split: if_splits)
  then have "r = \<lparr>nodes = nodes g, links = routedLinks offs (nodes g) (links g)\<rparr>"
    using route_spec [OF ok refl] by simp
  then have "nodes r = nodes g" "map core (links r) = map core (links g)"
    by (simp_all add: core_routedLinks)
  then have "routedGraph offs (Some r) = routedGraph offs (Some g)"
    by (rule routedGraph_cong)
  then show "routedGraph offs (Some r) = Inr (Some r)" using r by simp
qed

lemma stale_fork_agrees:
  "nodes staleForkGraph = nodes forkGraph \<and>
   map core (links staleForkGraph) = map core (links forkGraph)"
  by code_simp

lemma fork_routed:
  "routedGraph manualOffsets (Some forkGraph) = Inr (Some (route manualOffsets forkGraph))"
  by code_simp

theorem C8_routing_deterministic_witness:
  "nodes staleForkGraph = nodes forkGraph
   \<and> map core (links staleForkGraph) = map core (links forkGraph)
   \<and> routedGraph manualOffsets (Some staleForkGraph) = routedGraph manualOffsets (Some forkGraph)
   \<and> routedGraph manualOffsets (Some forkGraph) = Inr (Some (route manualOffsets forkGraph))
   \<and> routedGraph manualOffsets (Some (route manualOffsets forkGraph)) =
       Inr (Some (route manualOffsets forkGraph))"
  using C8_routing_deterministic [of staleForkGraph forkGraph manualOffsets]
    stale_fork_agrees fork_routed
  by blast

text \<open>
  C4 (amended). For a link end in a bucket of a node: with a saved manual offset the end
  starts at offset minus half the link width, clamped by \<open>max 0 (min _ (edgeLength - width))\<close>;
  without one it starts at the cursor, clamped the same way. The cursor does not depend
  on the saved offsets: it is the start of the centred bundle, computed from the widths
  of all links of the bucket, manual ones included, plus the widths of all links visited
  before, manual ones included. When the link is not wider than the edge, the start lies
  in [0, edgeLength - width].
\<close>

theorem C4_manual_offset_placement:
  assumes "endsInRange g" and "k \<in> set (nodeBucketsOf offs g i b)"
  shows "(\<forall>manualPos. manualPosOf offs b (links g ! k) = Some manualPos \<longrightarrow>
        startOnEdge (nodes g ! i) b (links (route offs g) ! k) =
          Some (max 0 (min (manualPos - linkWidth (links g ! k) / 2)
                           (edgeLengthOf (nodes g ! i) b - linkWidth (links g ! k)))))
    \<and> (manualPosOf offs b (links g ! k) = None \<longrightarrow>
        startOnEdge (nodes g ! i) b (links (route offs g) ! k) =
          Some (max 0 (min (cursorOf (nodes g ! i) b (links g) (nodeBucketsOf offs g i b) k)
                           (edgeLengthOf (nodes g ! i) b - linkWidth (links g ! k)))))
    \<and> cursorOf (nodes g ! i) b (links g) (nodeBucketsOf offs g i b) k =
        max 0 ((edgeLengthOf (nodes g ! i) b
                - (\<Sum>m\<leftarrow>sortedBucket b (links g) (nodeBucketsOf offs g i b).
                     linkWidth (links g ! m))) / 2)
        + (\<Sum>m\<leftarrow>takeWhile (\<lambda>m. m \<noteq> k) (sortedBucket b (links g) (nodeBucketsOf offs g i b)).
             linkWidth (links g ! m))
    \<and> (linkWidth (links g ! k) \<le> edgeLengthOf (nodes g ! i) b \<longrightarrow>
        (\<exists>p. startOnEdge (nodes g ! i) b (links (route offs g) ! k) = Some p
           \<and> 0 \<le> p \<and> p \<le> edgeLengthOf (nodes g ! i) b - linkWidth (links g ! k)))"
proof -
  note s = startOnEdge_routed [OF assms]
  show ?thesis
  proof (intro conjI allI impI)
    fix manualPos assume "manualPosOf offs b (links g ! k) = Some manualPos"
    then show "startOnEdge (nodes g ! i) b (links (route offs g) ! k) =
          Some (max 0 (min (manualPos - linkWidth (links g ! k) / 2)
                           (edgeLengthOf (nodes g ! i) b - linkWidth (links g ! k))))"
      by (simp add: s posOnEdgeOf_def Let_def)
  next
    assume "manualPosOf offs b (links g ! k) = None"
    then show "startOnEdge (nodes g ! i) b (links (route offs g) ! k) =
          Some (max 0 (min (cursorOf (nodes g ! i) b (links g) (nodeBucketsOf offs g i b) k)
                           (edgeLengthOf (nodes g ! i) b - linkWidth (links g ! k))))"
      by (simp add: s posOnEdgeOf_def Let_def)
  next
    show "cursorOf (nodes g ! i) b (links g) (nodeBucketsOf offs g i b) k =
        max 0 ((edgeLengthOf (nodes g ! i) b
                - (\<Sum>m\<leftarrow>sortedBucket b (links g) (nodeBucketsOf offs g i b).
                     linkWidth (links g ! m))) / 2)
        + (\<Sum>m\<leftarrow>takeWhile (\<lambda>m. m \<noteq> k) (sortedBucket b (links g) (nodeBucketsOf offs g i b)).
             linkWidth (links g ! m))"
      by (simp add: cursorOf_def)
  next
    assume "linkWidth (links g ! k) \<le> edgeLengthOf (nodes g ! i) b"
    then show "\<exists>p. startOnEdge (nodes g ! i) b (links (route offs g) ! k) = Some p
           \<and> 0 \<le> p \<and> p \<le> edgeLengthOf (nodes g ! i) b - linkWidth (links g ! k)"
      by (simp add: s posOnEdgeOf_def Let_def)
  qed
qed

text \<open>
  C2 (amended). In the routed graph, two different links of one bucket of a node that
  have no saved manual offset for that end occupy disjoint intervals
  [start, start + width) along the edge, provided the widths of the links of the bucket
  are not negative and together do not exceed the length of the edge.
\<close>

theorem C2_auto_links_disjoint:
  assumes "endsInRange g"
    and "j \<in> set (nodeBucketsOf offs g i b)" and "k \<in> set (nodeBucketsOf offs g i b)"
    and "j \<noteq> k"
    and "manualPosOf offs b (links g ! j) = None" and "manualPosOf offs b (links g ! k) = None"
    and "\<forall>m\<in>set (nodeBucketsOf offs g i b). 0 \<le> linkWidth (links g ! m)"
    and "(\<Sum>m\<leftarrow>nodeBucketsOf offs g i b. linkWidth (links g ! m)) \<le> edgeLengthOf (nodes g ! i) b"
  shows "\<exists>sj sk. startOnEdge (nodes g ! i) b (links (route offs g) ! j) = Some sj
    \<and> startOnEdge (nodes g ! i) b (links (route offs g) ! k) = Some sk
    \<and> {sj ..< sj + linkWidth (links g ! j)} \<inter> {sk ..< sk + linkWidth (links g ! k)} = {}"
proof -
  define bucket where "bucket = nodeBucketsOf offs g i b"
  define S where "S = sortedBucket b (links g) bucket"
  define w where "w m = linkWidth (links g ! m)" for m
  define e where "e = edgeLengthOf (nodes g ! i) b"
  define total where "total = (\<Sum>m\<leftarrow>S. w m)"
  define P where "P m = (\<Sum>n\<leftarrow>takeWhile (\<lambda>n. n \<noteq> m) S. w n)" for m
  have setS: "set S = set bucket" by (simp add: S_def sortedBucket_def)
  have nn: "\<forall>m\<in>set S. 0 \<le> w m" using assms(7) by (simp add: setS bucket_def w_def)
  have tot: "total \<le> e"
    using assms(8) by (simp add: total_def S_def sortedBucket_def sum_list_sort_key e_def
        bucket_def w_def)
  have jS: "j \<in> set S" and kS: "k \<in> set S" using assms(2,3) by (simp_all add: setS bucket_def)
  have cur: "cursorOf (nodes g ! i) b (links g) bucket m = (e - total) / 2 + P m" for m
    using tot by (simp add: cursorOf_def S_def [symmetric] w_def [symmetric] total_def [symmetric]
        e_def [symmetric] P_def)
  have bj: "0 \<le> P j \<and> P j + w j \<le> total" and bk: "0 \<le> P k \<and> P k + w k \<le> total"
    unfolding P_def total_def using prefix_sum_bound [OF jS nn] prefix_sum_bound [OF kS nn]
    by blast+
  have inside: "max 0 (min ((e - total) / 2 + P m) (e - w m)) = (e - total) / 2 + P m"
    if "0 \<le> P m \<and> P m + w m \<le> total" for m
  proof -
    have a: "0 \<le> P m" and b: "P m + w m \<le> total" using that by simp_all
    have "0 \<le> (e - total) / 2 + P m" using a tot by simp
    moreover have "(e - total) / 2 + P m \<le> e - w m" using b tot by (simp add: field_simps)
    ultimately have "0 \<le> (e - total) / 2 + P m" "(e - total) / 2 + P m \<le> e - w m" .
    then show ?thesis by (simp add: min_def max_def)
  qed
  have sj: "startOnEdge (nodes g ! i) b (links (route offs g) ! j) = Some ((e - total) / 2 + P j)"
    using startOnEdge_routed [OF assms(1,2)] assms(5) inside [OF bj]
    by (simp add: posOnEdgeOf_def Let_def bucket_def [symmetric] cur e_def [symmetric]
        w_def [symmetric])
  have sk: "startOnEdge (nodes g ! i) b (links (route offs g) ! k) = Some ((e - total) / 2 + P k)"
    using startOnEdge_routed [OF assms(1,3)] assms(6) inside [OF bk]
    by (simp add: posOnEdgeOf_def Let_def bucket_def [symmetric] cur e_def [symmetric]
        w_def [symmetric])
  have "P j + w j \<le> P k \<or> P k + w k \<le> P j"
    unfolding P_def using prefix_sum_order [OF jS kS assms(4) nn] .
  then have "{(e - total) / 2 + P j ..< (e - total) / 2 + P j + w j}
      \<inter> {(e - total) / 2 + P k ..< (e - total) / 2 + P k + w k} = {}"
    by auto
  then show ?thesis using sj sk by (simp add: w_def)
qed


subsection \<open>The routing on the concrete graphs\<close>

lemma fork_facts:
  "endsInRange forkGraph"
  "nodes forkGraph ! 0 = metalNode"
  "nodeBucketsOf Map.empty forkGraph 0 (False, Right) = [0, 1]"
  "nodeBucketsOf manualOffsets forkGraph 0 (False, Right) = [0, 1]"
  "manualPosOf Map.empty (False, Right) (links forkGraph ! 0) = None"
  "manualPosOf Map.empty (False, Right) (links forkGraph ! 1) = None"
  "manualPosOf manualOffsets (False, Right) (links forkGraph ! 0) = Some 90"
  "manualPosOf manualOffsets (False, Right) (links forkGraph ! 1) = None"
  "linkWidth (links forkGraph ! 0) = 10"
  "linkWidth (links forkGraph ! 1) = 20"
  "edgeLengthOf metalNode (False, Right) = 100"
  by code_simp+

lemma fork_starts:
  "startOnEdge metalNode (False, Right) (links (route Map.empty forkGraph) ! 0) = Some 35"
  "startOnEdge metalNode (False, Right) (links (route Map.empty forkGraph) ! 1) = Some 45"
  "startOnEdge metalNode (False, Right) (links (route manualOffsets forkGraph) ! 0) = Some 85"
  "startOnEdge metalNode (False, Right) (links (route manualOffsets forkGraph) ! 1) = Some 45"
  "startOnEdge metalNode (False, Right) (links (route manualOffsets prunedForkGraph) ! 0) = Some 40"
  by code_simp+

lemma wide_fork_facts:
  "nodeBucketsOf Map.empty wideForkGraph 0 (False, Right) = [0, 1]"
  "manualPosOf Map.empty (False, Right) (links wideForkGraph ! 0) = None"
  "manualPosOf Map.empty (False, Right) (links wideForkGraph ! 1) = None"
  "linkWidth (links wideForkGraph ! 0) = 60"
  "linkWidth (links wideForkGraph ! 1) = 60"
  "startOnEdge metalNode (False, Right) (links (route Map.empty wideForkGraph) ! 0) = Some 0"
  "startOnEdge metalNode (False, Right) (links (route Map.empty wideForkGraph) ! 1) = Some 40"
  by code_simp+

text \<open>
  C2 (as stated, refuted). Two links of width 60 leave the right edge (length 100) of the
  metal node, neither with a manual offset: the first starts at 0, the second is clamped
  to 40, and the intervals [0, 60) and [40, 100) overlap.
\<close>

theorem C2_overlap_counterexample:
  "nodeBucketsOf Map.empty wideForkGraph 0 (False, Right) = [0, 1]
   \<and> manualPosOf Map.empty (False, Right) (links wideForkGraph ! 0) = None
   \<and> manualPosOf Map.empty (False, Right) (links wideForkGraph ! 1) = None
   \<and> linkWidth (links wideForkGraph ! 0) = 60
   \<and> linkWidth (links wideForkGraph ! 1) = 60
   \<and> startOnEdge metalNode (False, Right) (links (route Map.empty wideForkGraph) ! 0) = Some 0
   \<and> startOnEdge metalNode (False, Right) (links (route Map.empty wideForkGraph) ! 1) = Some 40
   \<and> {0 ..< 0 + 60} \<inter> {40 ..< 40 + 60} \<noteq> ({} :: real set)"
proof -
  have "(50 :: real) \<in> {0 ..< 0 + 60} \<inter> {40 ..< 40 + 60}" by simp
  then have "{0 ..< 0 + 60} \<inter> {40 ..< 40 + 60} \<noteq> ({} :: real set)" by blast
  then show ?thesis using wide_fork_facts by blast
qed

theorem C2_auto_links_disjoint_witness:
  "endsInRange forkGraph
   \<and> nodeBucketsOf Map.empty forkGraph 0 (False, Right) = [0, 1]
   \<and> (\<Sum>m\<leftarrow>nodeBucketsOf Map.empty forkGraph 0 (False, Right). linkWidth (links forkGraph ! m))
       \<le> edgeLengthOf (nodes forkGraph ! 0) (False, Right)
   \<and> (\<exists>sj sk.
        startOnEdge (nodes forkGraph ! 0) (False, Right) (links (route Map.empty forkGraph) ! 0)
          = Some sj
        \<and> startOnEdge (nodes forkGraph ! 0) (False, Right) (links (route Map.empty forkGraph) ! 1)
          = Some sk
        \<and> {sj ..< sj + linkWidth (links forkGraph ! 0)}
            \<inter> {sk ..< sk + linkWidth (links forkGraph ! 1)} = {})"
proof -
  have in0: "0 \<in> set (nodeBucketsOf Map.empty forkGraph 0 (False, Right))"
    and in1: "1 \<in> set (nodeBucketsOf Map.empty forkGraph 0 (False, Right))"
    by code_simp+
  have ne: "(0 :: nat) \<noteq> 1" by simp
  have nn: "\<forall>m\<in>set (nodeBucketsOf Map.empty forkGraph 0 (False, Right)).
      0 \<le> linkWidth (links forkGraph ! m)"
    by code_simp
  have fits: "(\<Sum>m\<leftarrow>nodeBucketsOf Map.empty forkGraph 0 (False, Right).
      linkWidth (links forkGraph ! m)) \<le> edgeLengthOf (nodes forkGraph ! 0) (False, Right)"
    by code_simp
  show ?thesis
    using C2_auto_links_disjoint [OF fork_facts(1) in0 in1 ne fork_facts(5,6) nn fits]
      fork_facts(1,3) fits
    by blast
qed

text \<open>
  C4 (as stated, refuted). The link metal \<rightarrow> magnet (width 10) has a manual source offset,
  the link metal \<rightarrow> other\_semi (width 20) has none, and both leave the right edge
  (length 100). The automatic link starts at 45 = (100 - 30) / 2 + 10: the manual link is
  counted in the centred total and moves the cursor on. Were it left out of the
  accumulation, the automatic link would start at 40 = (100 - 20) / 2, as it does in the
  graph without the manual link.
\<close>

theorem C4_accumulation_counterexample:
  "nodeBucketsOf manualOffsets forkGraph 0 (False, Right) = [0, 1]
   \<and> manualPosOf manualOffsets (False, Right) (links forkGraph ! 0) = Some 90
   \<and> manualPosOf manualOffsets (False, Right) (links forkGraph ! 1) = None
   \<and> startOnEdge metalNode (False, Right) (links (route manualOffsets forkGraph) ! 1) = Some 45
   \<and> startOnEdge metalNode (False, Right) (links (route manualOffsets prunedForkGraph) ! 0)
       = Some 40"
  using fork_facts fork_starts by blast

theorem C4_manual_offset_placement_witness:
  "endsInRange forkGraph
   \<and> 0 \<in> set (nodeBucketsOf manualOffsets forkGraph 0 (False, Right))
   \<and> 1 \<in> set (nodeBucketsOf manualOffsets forkGraph 0 (False, Right))
   \<and> manualPosOf manualOffsets (False, Right) (links forkGraph ! 0) = Some 90
   \<and> manualPosOf manualOffsets (False, Right) (links forkGraph ! 1) = None
   \<and> startOnEdge (nodes forkGraph ! 0) (False, Right) (links (route manualOffsets forkGraph) ! 0)
       = Some (max 0 (min (90 - linkWidth (links forkGraph ! 0) / 2)
                 (edgeLengthOf (nodes forkGraph ! 0) (False, Right)
                  - linkWidth (links forkGraph ! 0))))
   \<and> startOnEdge metalNode (False, Right) (links (route manualOffsets forkGraph) ! 0) = Some 85
   \<and> startOnEdge (nodes forkGraph ! 0) (False, Right) (links (route manualOffsets forkGraph) ! 1)
       = Some (max 0 (min (cursorOf (nodes forkGraph ! 0) (False, Right) (links forkGraph)
                             (nodeBucketsOf manualOffsets forkGraph 0 (False, Right)) 1)
                 (edgeLengthOf (nodes forkGraph ! 0) (False, Right)
                  - linkWidth (links forkGraph ! 1))))
   \<and> cursorOf (nodes forkGraph ! 0) (False, Right) (links forkGraph)
        (nodeBucketsOf manualOffsets forkGraph 0 (False, Right)) 1 = 45
   \<and> startOnEdge metalNode (False, Right) (links (route manualOffsets forkGraph) ! 1) = Some 45"
proof -
  have in0: "0 \<in> set (nodeBucketsOf manualOffsets forkGraph 0 (False, Right))"
    and in1: "1 \<in> set (nodeBucketsOf manualOffsets forkGraph 0 (False, Right))"
    by code_simp+
  have cur: "cursorOf (nodes forkGraph ! 0) (False, Right) (links forkGraph)
        (nodeBucketsOf manualOffsets forkGraph 0 (False, Right)) 1 = 45"
    by code_simp
  show ?thesis
    using C4_manual_offset_placement [OF fork_facts(1) in0]
      C4_manual_offset_placement [OF fork_facts(1) in1] in0 in1 cur
      fork_facts(1,7,8) fork_starts(3,4)
    by blast
qed

end
